theory Spec2Isabelle
  imports Main "HOL-Library.Multiset" "HOL-Library.Product_Lexorder"
begin

section \<open>VibeHunt API: posts, votes and comments over a document store\<close>

text \<open>
  A shallow embedding of \<^verbatim>\<open>main.py\<close>. Every endpoint is a function from the store handle
  \<^verbatim>\<open>db\<close> (absent when no database is configured) and its arguments to a result and the
  store handle afterwards. An \<^verbatim>\<open>HTTPException\<close> or an unhandled exception is a value of
  \<open>error\<close>.

  Three things the program reads from outside are parameters of the model:
  \<^item> \<^verbatim>\<open>bson.ObjectId(id_str)\<close>, the parser of identifiers, is the argument \<open>ObjectId\<close>
    of every operation that calls \<^verbatim>\<open>oid\<close>: it returns \<open>None\<close> where the constructor raises;
  \<^item> \<^verbatim>\<open>datetime.now(timezone.utc)\<close> is the argument \<open>now\<close>: \<open>now k\<close> is what the
    \<open>k\<close>-th call made by the operation returns (counted from 0, in evaluation order);
  \<^item> a fresh \<^verbatim>\<open>_id\<close> is drawn from a counter kept with the collections.

  The endpoints return the documents themselves: \<^verbatim>\<open>serialize\<close>, which renames \<^verbatim>\<open>_id\<close> to
  \<^verbatim>\<open>id\<close> and prints the identifier and the timestamps, is left out. Requests run one
  after the other. A collection is the list of its documents in insertion order, which
  is the order \<^verbatim>\<open>find\<close> and \<^verbatim>\<open>find_one\<close> scan; a sort is stable.
\<close>

subsection \<open>Values\<close>

type_synonym objectid = nat

text \<open>Instants and durations count milliseconds, the resolution the store keeps.\<close>

type_synonym time = int

text \<open>A Python \<^verbatim>\<open>str\<close> is a sequence of code points.\<close>

type_synonym pystr = "nat list"

definition str :: "string \<Rightarrow> pystr" where
  "str s = map of_char s"

definition days :: "int \<Rightarrow> time" where
  "days n = n * 86400000"

definition hours :: "int \<Rightarrow> time" where
  "hours n = n * 3600000"

definition seconds :: "int \<Rightarrow> time" where
  "seconds n = n * 1000"

text \<open>The code points \<^verbatim>\<open>str.isspace\<close> accepts, which \<^verbatim>\<open>str.strip()\<close> removes at both ends.\<close>

definition isspace :: "nat \<Rightarrow> bool" where
  "isspace c \<longleftrightarrow>
     (9 \<le> c \<and> c \<le> 13) \<or> (28 \<le> c \<and> c \<le> 32) \<or> c = 133 \<or> c = 160 \<or> c = 5760 \<or>
     (8192 \<le> c \<and> c \<le> 8202) \<or> c = 8232 \<or> c = 8233 \<or> c = 8239 \<or> c = 8287 \<or> c = 12288"

definition strip :: "pystr \<Rightarrow> pystr" where
  "strip s = rev (dropWhile isspace (rev (dropWhile isspace s)))"

text \<open>\<^verbatim>\<open>(x or "").strip() or None\<close>\<close>

definition strip_or_None :: "pystr option \<Rightarrow> pystr option" where
  "strip_or_None x =
     (let s = strip (case x of None \<Rightarrow> [] | Some v \<Rightarrow> v)
      in if s = [] then None else Some s)"

text \<open>\<^verbatim>\<open>(x or None)\<close>\<close>

definition or_None :: "pystr option \<Rightarrow> pystr option" where
  "or_None x = (case x of None \<Rightarrow> None | Some v \<Rightarrow> if v = [] then None else Some v)"

subsection \<open>Documents and the store\<close>

record post =
  p_id :: objectid
  title :: pystr
  tagline :: pystr
  maker :: "pystr option"
  url :: "pystr option"
  votes_count :: int
  comments_count :: int
  p_created_at :: time
  p_updated_at :: time

record vote =
  v_id :: objectid
  v_post_id :: objectid
  v_device_id :: pystr
  v_created_at :: time
  v_updated_at :: time

record comment =
  c_id :: objectid
  c_post_id :: objectid
  author :: "pystr option"
  content :: pystr
  c_device_id :: "pystr option"
  c_created_at :: time
  c_updated_at :: time

text \<open>
  The three collections \<^verbatim>\<open>db["post"]\<close>, \<^verbatim>\<open>db["vote"]\<close>, \<^verbatim>\<open>db["comment"]\<close> in insertion
  order, and the counter the next \<^verbatim>\<open>_id\<close> comes from.
\<close>

record database =
  post_coll :: "post list"
  vote_coll :: "vote list"
  comment_coll :: "comment list"
  next_oid :: objectid

definition empty_db :: database where
  "empty_db = \<lparr>post_coll = [], vote_coll = [], comment_coll = [], next_oid = 0\<rparr>"

text \<open>\<^verbatim>\<open>find_one\<close>, \<^verbatim>\<open>update_one\<close> and \<^verbatim>\<open>delete_one\<close> act on the first document that matches.\<close>

definition find_one :: "('a \<Rightarrow> bool) \<Rightarrow> 'a list \<Rightarrow> 'a option" where
  "find_one P xs = find P xs"

fun update_one :: "('a \<Rightarrow> bool) \<Rightarrow> ('a \<Rightarrow> 'a) \<Rightarrow> 'a list \<Rightarrow> 'a list" where
  "update_one P f [] = []"
| "update_one P f (x # xs) = (if P x then f x # xs else x # update_one P f xs)"

fun delete_one :: "('a \<Rightarrow> bool) \<Rightarrow> 'a list \<Rightarrow> 'a list" where
  "delete_one P [] = []"
| "delete_one P (x # xs) = (if P x then xs else x # delete_one P xs)"

text \<open>\<^verbatim>\<open>insert_one\<close> gives the document its \<^verbatim>\<open>_id\<close> and appends it.\<close>

definition insert_post :: "post \<Rightarrow> database \<Rightarrow> post \<times> database" where
  "insert_post doc d =
     (let doc' = doc\<lparr>p_id := next_oid d\<rparr>
      in (doc', d\<lparr>post_coll := post_coll d @ [doc'], next_oid := Suc (next_oid d)\<rparr>))"

definition insert_vote :: "vote \<Rightarrow> database \<Rightarrow> vote \<times> database" where
  "insert_vote doc d =
     (let doc' = doc\<lparr>v_id := next_oid d\<rparr>
      in (doc', d\<lparr>vote_coll := vote_coll d @ [doc'], next_oid := Suc (next_oid d)\<rparr>))"

definition insert_comment :: "comment \<Rightarrow> database \<Rightarrow> comment \<times> database" where
  "insert_comment doc d =
     (let doc' = doc\<lparr>c_id := next_oid d\<rparr>
      in (doc', d\<lparr>comment_coll := comment_coll d @ [doc'], next_oid := Suc (next_oid d)\<rparr>))"

text \<open>\<^verbatim>\<open>insert_many\<close> inserts the documents one after the other.\<close>

fun insert_many_posts :: "post list \<Rightarrow> database \<Rightarrow> database" where
  "insert_many_posts [] d = d"
| "insert_many_posts (doc # docs) d = insert_many_posts docs (snd (insert_post doc d))"

text \<open>
  \<^verbatim>\<open>find(query).sort([(key, -1), ("created_at", -1)])\<close>: descending in the key, then
  descending in the creation time.
\<close>

definition sort_desc :: "('a \<Rightarrow> int) \<Rightarrow> ('a \<Rightarrow> int) \<Rightarrow> 'a list \<Rightarrow> 'a list" where
  "sort_desc k1 k2 xs = sort_key (\<lambda>x. (- k1 x, - k2 x)) xs"

subsection \<open>Errors\<close>

datatype error =
  InvalidId           \<comment> \<open>\<^verbatim>\<open>HTTPException(400, "Invalid id")\<close>\<close>
| NotFound            \<comment> \<open>\<^verbatim>\<open>HTTPException(404, "Post not found")\<close>\<close>
| StoreUnavailable    \<comment> \<open>\<^verbatim>\<open>HTTPException(500, "Database not available")\<close>\<close>
| Unhandled           \<comment> \<open>an exception no handler catches: a 500 of the framework\<close>

definition oid :: "(pystr \<Rightarrow> objectid option) \<Rightarrow> pystr \<Rightarrow> error + objectid" where
  "oid ObjectId id_str = (case ObjectId id_str of Some i \<Rightarrow> Inr i | None \<Rightarrow> Inl InvalidId)"

subsection \<open>Seed data\<close>

definition samples :: "(nat \<Rightarrow> time) \<Rightarrow> post list" where
  "samples now =
     [\<lparr>p_id = 0, title = str ''Auto-SaaS Genie'',
       tagline = str ''AI that builds and ships micro-SaaS from a prompt.'',
       maker = Some (str ''@vibe-wizard''), url = Some (str ''https://example.com/genie''),
       votes_count = 28, comments_count = 6,
       p_created_at = now 0 - days 25, p_updated_at = now 1 - days 2\<rparr>,
      \<lparr>p_id = 0, title = str ''Recurring Notion Shop'',
       tagline = str ''Turn any Notion template into a paid subscription.'',
       maker = Some (str ''@opsmith''), url = Some (str ''https://example.com/notion-shop''),
       votes_count = 41, comments_count = 9,
       p_created_at = now 2 - days 5, p_updated_at = now 3 - days 1\<rparr>,
      \<lparr>p_id = 0, title = str ''Tweet-to-Product'',
       tagline = str ''Scrape your best tweets and spin them into a paid course + app.'',
       maker = Some (str ''@shipdaily''), url = Some (str ''https://example.com/tweet-product''),
       votes_count = 12, comments_count = 2,
       p_created_at = now 4 - days 2, p_updated_at = now 5 - hours 12\<rparr>,
      \<lparr>p_id = 0, title = str ''API to Airtable Cashflow'',
       tagline = str ''One-click Stripe analytics in Airtable with churn & MRR.'',
       maker = Some (str ''@revenuebits''), url = Some (str ''https://example.com/cashflow''),
       votes_count = 33, comments_count = 4,
       p_created_at = now 6 - days 15, p_updated_at = now 7 - days 6\<rparr>]"

text \<open>The loop over \<^verbatim>\<open>demo_posts\<close>; \<open>k\<close> counts the clock readings made so far.\<close>

fun seed_votes :: "post list \<Rightarrow> (nat \<Rightarrow> time) \<Rightarrow> nat \<Rightarrow> database \<Rightarrow> database" where
  "seed_votes [] now k d = d"
| "seed_votes (p # ps) now k d =
     seed_votes ps now (k + 2)
       (snd (insert_vote \<lparr>v_id = 0, v_post_id = p_id p, v_device_id = str ''demo-device'',
                          v_created_at = now k, v_updated_at = now (k + 1)\<rparr> d))"

definition seed_posts :: "database option \<Rightarrow> (nat \<Rightarrow> time) \<Rightarrow> database option" where
  "seed_posts db now =
     (case db of
        None \<Rightarrow> None
      | Some d \<Rightarrow>
          if length (post_coll d) > 0 then Some d
          else
            let d1 = (if samples now \<noteq> [] then insert_many_posts (samples now) d else d);
                demo_posts = take 2 (post_coll d1)
            in Some (seed_votes demo_posts now 8 d1))"

subsection \<open>Endpoints\<close>

definition list_posts ::
  "database option \<Rightarrow> pystr \<Rightarrow> pystr \<Rightarrow> (nat \<Rightarrow> time) \<Rightarrow> post list" where
  "list_posts db range_arg sort_arg now =
     (case db of
        None \<Rightarrow> []
      | Some d \<Rightarrow>
          let t = now 0;
              query = (if range_arg = str ''week'' then (\<lambda>p. t - days 7 \<le> p_created_at p)
                       else if range_arg = str ''month'' then (\<lambda>p. t - days 30 \<le> p_created_at p)
                       else (\<lambda>p. True));
              sort_key = (if sort_arg = str ''comments'' then comments_count
                          else if sort_arg = str ''latest'' then p_created_at
                          else votes_count)
          in sort_desc sort_key p_created_at (filter query (post_coll d)))"

definition get_post ::
  "(pystr \<Rightarrow> objectid option) \<Rightarrow> database option \<Rightarrow> pystr \<Rightarrow> error + post" where
  "get_post ObjectId db post_id =
     (case db of
        None \<Rightarrow> Inl Unhandled
      | Some d \<Rightarrow>
          (case oid ObjectId post_id of
             Inl e \<Rightarrow> Inl e
           | Inr pid \<Rightarrow>
               (case find_one (\<lambda>p. p_id p = pid) (post_coll d) of
                  None \<Rightarrow> Inl NotFound
                | Some p \<Rightarrow> Inr p)))"

record PostCreate =
  pc_title :: pystr
  pc_tagline :: pystr
  pc_maker :: "pystr option"
  pc_url :: "pystr option"

definition create_post ::
  "database option \<Rightarrow> PostCreate \<Rightarrow> (nat \<Rightarrow> time) \<Rightarrow> (error + post) \<times> database option" where
  "create_post db data now =
     (case db of
        None \<Rightarrow> (Inl StoreUnavailable, None)
      | Some d \<Rightarrow>
          let doc = \<lparr>p_id = 0, title = strip (pc_title data), tagline = strip (pc_tagline data),
                     maker = strip_or_None (pc_maker data), url = strip_or_None (pc_url data),
                     votes_count = 0, comments_count = 0,
                     p_created_at = now 0, p_updated_at = now 1\<rparr>;
              (doc', d') = insert_post doc d
          in (Inr doc', Some d'))"

definition toggle_vote ::
  "(pystr \<Rightarrow> objectid option) \<Rightarrow> database option \<Rightarrow> pystr \<Rightarrow> pystr \<Rightarrow> (nat \<Rightarrow> time)
     \<Rightarrow> (error + bool \<times> int) \<times> database option" where
  "toggle_vote ObjectId db post_id device_id now =
     (case db of
        None \<Rightarrow> (Inl StoreUnavailable, None)
      | Some d \<Rightarrow>
          (case oid ObjectId post_id of
             Inl e \<Rightarrow> (Inl e, Some d)
           | Inr pid \<Rightarrow>
               (case find_one (\<lambda>p. p_id p = pid) (post_coll d) of
                  None \<Rightarrow> (Inl NotFound, Some d)
                | Some _ \<Rightarrow>
                    let (voted, d2) =
                      (case find_one (\<lambda>v. v_post_id v = pid \<and> v_device_id v = device_id)
                              (vote_coll d) of
                         Some existing \<Rightarrow>
                           let d1 = d\<lparr>vote_coll :=
                                       delete_one (\<lambda>v. v_id v = v_id existing) (vote_coll d)\<rparr>
                           in (False,
                               d1\<lparr>post_coll :=
                                     update_one (\<lambda>p. p_id p = pid)
                                       (\<lambda>p. p\<lparr>votes_count := votes_count p - 1,
                                               p_updated_at := now 0\<rparr>)
                                       (post_coll d1)\<rparr>)
                       | None \<Rightarrow>
                           let d1 = snd (insert_vote
                                      \<lparr>v_id = 0, v_post_id = pid, v_device_id = device_id,
                                       v_created_at = now 0, v_updated_at = now 1\<rparr> d)
                           in (True,
                               d1\<lparr>post_coll :=
                                     update_one (\<lambda>p. p_id p = pid)
                                       (\<lambda>p. p\<lparr>votes_count := votes_count p + 1,
                                               p_updated_at := now 2\<rparr>)
                                       (post_coll d1)\<rparr>))
                    in (case find_one (\<lambda>p. p_id p = pid) (post_coll d2) of
                          None \<Rightarrow> (Inl Unhandled, Some d2)
                        | Some p \<Rightarrow> (Inr (voted, votes_count p), Some d2)))))"

definition list_comments ::
  "(pystr \<Rightarrow> objectid option) \<Rightarrow> database option \<Rightarrow> pystr \<Rightarrow> error + comment list" where
  "list_comments ObjectId db post_id =
     (case oid ObjectId post_id of
        Inl e \<Rightarrow> Inl e
      | Inr pid \<Rightarrow>
          (case db of
             None \<Rightarrow> Inl Unhandled
           | Some d \<Rightarrow>
               Inr (sort_key (\<lambda>c. - c_created_at c)
                      (filter (\<lambda>c. c_post_id c = pid) (comment_coll d)))))"

record CommentCreate =
  cc_content :: pystr
  cc_author :: "pystr option"
  cc_device_id :: "pystr option"

definition add_comment ::
  "(pystr \<Rightarrow> objectid option) \<Rightarrow> database option \<Rightarrow> pystr \<Rightarrow> CommentCreate \<Rightarrow> (nat \<Rightarrow> time)
     \<Rightarrow> (error + comment) \<times> database option" where
  "add_comment ObjectId db post_id payload now =
     (case oid ObjectId post_id of
        Inl e \<Rightarrow> (Inl e, db)
      | Inr pid \<Rightarrow>
          (case db of
             None \<Rightarrow> (Inl Unhandled, None)
           | Some d \<Rightarrow>
               (case find_one (\<lambda>p. p_id p = pid) (post_coll d) of
                  None \<Rightarrow> (Inl NotFound, Some d)
                | Some _ \<Rightarrow>
                    let doc = \<lparr>c_id = 0, c_post_id = pid,
                               author = strip_or_None (cc_author payload),
                               content = strip (cc_content payload),
                               c_device_id = or_None (cc_device_id payload),
                               c_created_at = now 0, c_updated_at = now 1\<rparr>;
                        (doc', d1) = insert_comment doc d;
                        d2 = d1\<lparr>post_coll :=
                                  update_one (\<lambda>p. p_id p = pid)
                                    (\<lambda>p. p\<lparr>comments_count := comments_count p + 1,
                                            p_updated_at := now 2\<rparr>)
                                    (post_coll d1)\<rparr>
                    in (Inr doc', Some d2))))"

subsection \<open>Sequences of calls and reachable states\<close>

text \<open>
  \<open>n\<close> calls of \<^verbatim>\<open>toggle_vote\<close> for the same post and device, one after the other; the
  \<open>k\<close>-th call reads the clock \<open>nows k\<close>. The results are listed in call order.
\<close>

fun toggle_votes ::
  "(pystr \<Rightarrow> objectid option) \<Rightarrow> database option \<Rightarrow> pystr \<Rightarrow> pystr \<Rightarrow> (nat \<Rightarrow> nat \<Rightarrow> time)
     \<Rightarrow> nat \<Rightarrow> (error + bool \<times> int) list \<times> database option" where
  "toggle_votes ObjectId db post_id device_id nows 0 = ([], db)"
| "toggle_votes ObjectId db post_id device_id nows (Suc n) =
     (let (rs, db1) = toggle_votes ObjectId db post_id device_id nows n;
          (r, db2) = toggle_vote ObjectId db1 post_id device_id (nows n)
      in (rs @ [r], db2))"

text \<open>
  The states of the store the program produces from an empty database: the startup hook
  runs \<^verbatim>\<open>seed_posts\<close> (at every start of the process), and each request runs one endpoint.
  \<^verbatim>\<open>list_posts\<close>, \<^verbatim>\<open>get_post\<close> and \<^verbatim>\<open>list_comments\<close> write nothing.
\<close>

inductive reachable :: "(pystr \<Rightarrow> objectid option) \<Rightarrow> database option \<Rightarrow> bool"
  for ObjectId :: "pystr \<Rightarrow> objectid option" where
  initial: "reachable ObjectId (Some empty_db)"
| startup: "reachable ObjectId db \<Longrightarrow> reachable ObjectId (seed_posts db now)"
| post_created: "reachable ObjectId db \<Longrightarrow> reachable ObjectId (snd (create_post db data now))"
| vote_toggled:
    "reachable ObjectId db \<Longrightarrow>
     reachable ObjectId (snd (toggle_vote ObjectId db post_id device_id now))"
| comment_added:
    "reachable ObjectId db \<Longrightarrow>
     reachable ObjectId (snd (add_comment ObjectId db post_id payload now))"

subsection \<open>Invariants of the store\<close>

text \<open>
  What the store and the endpoints keep between them: an \<^verbatim>\<open>_id\<close> is unique in its
  collection and older than the counter, and every vote and comment refers to a post of
  the post collection.
\<close>

definition wf_db :: "database \<Rightarrow> bool" where
  "wf_db d \<longleftrightarrow>
     distinct (map p_id (post_coll d)) \<and>
     distinct (map v_id (vote_coll d)) \<and>
     distinct (map c_id (comment_coll d)) \<and>
     list_all (\<lambda>p. p_id p < next_oid d) (post_coll d) \<and>
     list_all (\<lambda>v. v_id v < next_oid d) (vote_coll d) \<and>
     list_all (\<lambda>c. c_id c < next_oid d) (comment_coll d) \<and>
     list_all (\<lambda>v. v_post_id v \<in> set (map p_id (post_coll d))) (vote_coll d) \<and>
     list_all (\<lambda>c. c_post_id c \<in> set (map p_id (post_coll d))) (comment_coll d)"

text \<open>At most one vote for a pair of post and device.\<close>

definition unique_votes :: "database \<Rightarrow> bool" where
  "unique_votes d \<longleftrightarrow> distinct (map (\<lambda>v. (v_post_id v, v_device_id v)) (vote_coll d))"

text \<open>The cached counters of every post equal the numbers of its votes and its comments.\<close>

definition counters_consistent :: "database \<Rightarrow> bool" where
  "counters_consistent d \<longleftrightarrow>
     list_all
       (\<lambda>p. votes_count p = int (length (filter (\<lambda>v. v_post_id v = p_id p) (vote_coll d))) \<and>
            comments_count p =
              int (length (filter (\<lambda>c. c_post_id c = p_id p) (comment_coll d))))
       (post_coll d)"

text \<open>
  By how much a cached counter of a post exceeds the number of the records it counts,
  and the list of both surpluses, post by post in the order of the collection.
\<close>

definition votes_surplus :: "database \<Rightarrow> post \<Rightarrow> int" where
  "votes_surplus d p =
     votes_count p - int (length (filter (\<lambda>v. v_post_id v = p_id p) (vote_coll d)))"

definition comments_surplus :: "database \<Rightarrow> post \<Rightarrow> int" where
  "comments_surplus d p =
     comments_count p - int (length (filter (\<lambda>c. c_post_id c = p_id p) (comment_coll d)))"

definition surpluses :: "database \<Rightarrow> (objectid \<times> int \<times> int) list" where
  "surpluses d = map (\<lambda>p. (p_id p, votes_surplus d p, comments_surplus d p)) (post_coll d)"


subsection \<open>A concrete parser and clock\<close>

text \<open>
  For the concrete runs below: an identifier is 24 hexadecimal digits, read as a number,
  and the clock stands still.
\<close>

definition hexval :: "nat \<Rightarrow> nat option" where
  "hexval c =
     (if 48 \<le> c \<and> c \<le> 57 then Some (c - 48)
      else if 97 \<le> c \<and> c \<le> 102 then Some (c - 87)
      else if 65 \<le> c \<and> c \<le> 70 then Some (c - 55)
      else None)"

fun hexnum :: "nat \<Rightarrow> pystr \<Rightarrow> nat option" where
  "hexnum acc [] = Some acc"
| "hexnum acc (c # cs) = (case hexval c of None \<Rightarrow> None | Some v \<Rightarrow> hexnum (16 * acc + v) cs)"

definition hex_ObjectId :: "pystr \<Rightarrow> objectid option" where
  "hex_ObjectId s = (if length s = 24 then hexnum 0 s else None)"

definition clock0 :: "nat \<Rightarrow> time" where
  "clock0 k = 0"

definition clocks0 :: "nat \<Rightarrow> nat \<Rightarrow> time" where
  "clocks0 n k = 0"

text \<open>A store after two posts, one vote and one comment.\<close>

definition demo_db :: database where
  "demo_db =
     \<lparr>post_coll =
        [\<lparr>p_id = 0, title = str ''Idea'', tagline = str ''One line'', maker = None, url = None,
          votes_count = 1, comments_count = 1, p_created_at = 1000, p_updated_at = 3000\<rparr>,
         \<lparr>p_id = 1, title = str ''Other'', tagline = str ''Another line'', maker = None,
          url = None, votes_count = 0, comments_count = 0,
          p_created_at = 2000, p_updated_at = 2000\<rparr>],
      vote_coll =
        [\<lparr>v_id = 2, v_post_id = 0, v_device_id = str ''demo-device'',
          v_created_at = 2500, v_updated_at = 2500\<rparr>],
      comment_coll =
        [\<lparr>c_id = 3, c_post_id = 0, author = None, content = str ''Nice'', c_device_id = None,
          c_created_at = 3000, c_updated_at = 3000\<rparr>],
      next_oid = 4\<rparr>"

text \<open>
  A store for the listings, read at the instant 700000000: one post is 7 days and 1
  second old, one 6 days and 23 hours, one is dated a second ahead. The first two have
  the same number of votes.
\<close>

definition post_a :: post where
  "post_a = \<lparr>p_id = 0, title = str ''A'', tagline = str ''first'', maker = None, url = None,
              votes_count = 5, comments_count = 0,
              p_created_at = 95199000, p_updated_at = 95199000\<rparr>"

definition post_b :: post where
  "post_b = \<lparr>p_id = 1, title = str ''B'', tagline = str ''second'', maker = None, url = None,
              votes_count = 5, comments_count = 3,
              p_created_at = 98800000, p_updated_at = 98800000\<rparr>"

definition post_c :: post where
  "post_c = \<lparr>p_id = 2, title = str ''C'', tagline = str ''third'', maker = None, url = None,
              votes_count = 2, comments_count = 3,
              p_created_at = 700001000, p_updated_at = 700001000\<rparr>"

definition listing_db :: database where
  "listing_db =
     \<lparr>post_coll = [post_a, post_b, post_c], vote_coll = [], comment_coll = [], next_oid = 3\<rparr>"

definition clock_listing :: "nat \<Rightarrow> time" where
  "clock_listing k = 700000000"

text \<open>
  The store after one \<^verbatim>\<open>create_post\<close> and two calls of \<^verbatim>\<open>add_comment\<close> on an empty
  database, the second comment at a later instant.
\<close>

definition run_store :: database where
  "run_store =
     \<lparr>post_coll =
        [\<lparr>p_id = 0, title = str ''Idea'', tagline = str ''One line'', maker = None, url = None,
          votes_count = 0, comments_count = 2, p_created_at = 0, p_updated_at = 700000000\<rparr>],
      vote_coll = [],
      comment_coll =
        [\<lparr>c_id = 1, c_post_id = 0, author = None, content = str ''first'', c_device_id = None,
          c_created_at = 0, c_updated_at = 0\<rparr>,
         \<lparr>c_id = 2, c_post_id = 0, author = None, content = str ''second'', c_device_id = None,
          c_created_at = 700000000, c_updated_at = 700000000\<rparr>],
      next_oid = 3\<rparr>"

text \<open>
  A run of the program from an empty database: the startup seeds it, then a post is
  created (it gets the id 6), a device votes for it, and the first sample post gets a
  comment.
\<close>

definition booted_run :: "database option" where
  "booted_run =
     snd (add_comment hex_ObjectId
       (snd (toggle_vote hex_ObjectId
         (snd (create_post (seed_posts (Some empty_db) clock0)
            \<lparr>pc_title = str ''Idea'', pc_tagline = str ''One line'', pc_maker = None,
             pc_url = None\<rparr> clock0))
         (str ''000000000000000000000006'') (str ''phone'') clock0))
       (str ''000000000000000000000000'')
       \<lparr>cc_content = str ''Nice'', cc_author = None, cc_device_id = None\<rparr> clock0)"

section \<open>Properties\<close>

subsection \<open>The store primitives\<close>

lemma find_one_Some: "find_one P xs = Some x \<Longrightarrow> x \<in> set xs \<and> P x"
  by (auto simp: find_one_def find_Some_iff)

lemma find_one_None: "find_one P xs = None \<longleftrightarrow> (\<forall>x\<in>set xs. \<not> P x)"
  by (auto simp: find_one_def find_None_iff)

lemma find_one_update_one:
  "(\<And>x. P (f x) = P x) \<Longrightarrow> find_one P (update_one P f xs) = map_option f (find_one P xs)"
  by (induction xs) (auto simp: find_one_def)

lemma update_one_distinct:
  "distinct (map k xs) \<Longrightarrow>
   update_one (\<lambda>x. k x = i) f xs = map (\<lambda>x. if k x = i then f x else x) xs"
proof (induction xs)
  case Nil
  show ?case by simp
next
  case (Cons a xs)
  show ?case
  proof (cases "k a = i")
    case True
    with Cons.prems have "i \<notin> k ` set xs" by simp
    then have "\<forall>x\<in>set xs. k x \<noteq> i" by (metis imageI)
    then have "map (\<lambda>x. if k x = i then f x else x) xs = xs"
      by (induction xs) auto
    with True show ?thesis by simp
  next
    case False
    with Cons show ?thesis by simp
  qed
qed

lemma map_update_one: "(\<And>x. k (f x) = k x) \<Longrightarrow> map k (update_one P f xs) = map k xs"
  by (induction xs) auto

lemma delete_one_distinct:
  "distinct (map k xs) \<Longrightarrow> delete_one (\<lambda>x. k x = i) xs = filter (\<lambda>x. k x \<noteq> i) xs"
proof (induction xs)
  case Nil
  show ?case by simp
next
  case (Cons a xs)
  show ?case
  proof (cases "k a = i")
    case True
    with Cons.prems have "i \<notin> k ` set xs" by simp
    then have "\<forall>x\<in>set xs. k x \<noteq> i" by (metis imageI)
    then have "filter (\<lambda>x. k x \<noteq> i) xs = xs" by (induction xs) auto
    with True show ?thesis by simp
  next
    case False
    with Cons show ?thesis by simp
  qed
qed

lemma length_filter_delete:
  "distinct (map k xs) \<Longrightarrow> e \<in> set xs \<Longrightarrow>
   length (filter Q xs) =
     length (filter Q (filter (\<lambda>x. k x \<noteq> k e) xs)) + (if Q e then 1 else 0)"
proof (induction xs)
  case Nil
  then show ?case by simp
next
  case (Cons a xs)
  show ?case
  proof (cases "a = e")
    case True
    with Cons.prems have "k e \<notin> k ` set xs" by simp
    then have "\<forall>x\<in>set xs. k x \<noteq> k e" by (metis imageI)
    then have "filter (\<lambda>x. k x \<noteq> k e) xs = xs" by (induction xs) auto
    with True show ?thesis by simp
  next
    case False
    with Cons.prems have e: "e \<in> set xs" and d: "distinct (map k xs)" and ne: "k a \<noteq> k e"
      by auto
    from Cons.IH [OF d e] ne show ?thesis by simp
  qed
qed

subsection \<open>The endpoints, unfolded\<close>

lemma toggle_vote_vote:
  assumes "ObjectId post_id = Some pid"
    and "find_one (\<lambda>p. p_id p = pid) (post_coll d) = Some p"
    and "find_one (\<lambda>v. v_post_id v = pid \<and> v_device_id v = device_id) (vote_coll d) = None"
  shows "toggle_vote ObjectId (Some d) post_id device_id now =
    (Inr (True, votes_count p + 1),
     Some (d\<lparr>vote_coll := vote_coll d @
                [\<lparr>v_id = next_oid d, v_post_id = pid, v_device_id = device_id,
                  v_created_at = now 0, v_updated_at = now 1\<rparr>],
              next_oid := Suc (next_oid d),
              post_coll := update_one (\<lambda>p. p_id p = pid)
                 (\<lambda>p. p\<lparr>votes_count := votes_count p + 1, p_updated_at := now 2\<rparr>)
                 (post_coll d)\<rparr>))"
  using assms
  by (simp add: toggle_vote_def oid_def insert_vote_def Let_def find_one_update_one)

lemma toggle_vote_unvote:
  assumes "ObjectId post_id = Some pid"
    and "find_one (\<lambda>p. p_id p = pid) (post_coll d) = Some p"
    and "find_one (\<lambda>v. v_post_id v = pid \<and> v_device_id v = device_id) (vote_coll d) = Some e"
  shows "toggle_vote ObjectId (Some d) post_id device_id now =
    (Inr (False, votes_count p - 1),
     Some (d\<lparr>vote_coll := delete_one (\<lambda>v. v_id v = v_id e) (vote_coll d),
              post_coll := update_one (\<lambda>p. p_id p = pid)
                 (\<lambda>p. p\<lparr>votes_count := votes_count p - 1, p_updated_at := now 0\<rparr>)
                 (post_coll d)\<rparr>))"
  using assms
  by (simp add: toggle_vote_def oid_def Let_def find_one_update_one)

lemma create_post_Some:
  "create_post (Some d) data now =
     (Inr \<lparr>p_id = next_oid d, title = strip (pc_title data), tagline = strip (pc_tagline data),
           maker = strip_or_None (pc_maker data), url = strip_or_None (pc_url data),
           votes_count = 0, comments_count = 0, p_created_at = now 0, p_updated_at = now 1\<rparr>,
      Some (d\<lparr>post_coll := post_coll d @
               [\<lparr>p_id = next_oid d, title = strip (pc_title data),
                 tagline = strip (pc_tagline data),
                 maker = strip_or_None (pc_maker data), url = strip_or_None (pc_url data),
                 votes_count = 0, comments_count = 0,
                 p_created_at = now 0, p_updated_at = now 1\<rparr>],
               next_oid := Suc (next_oid d)\<rparr>))"
  by (simp add: create_post_def insert_post_def Let_def)

lemma add_comment_Some:
  assumes "ObjectId post_id = Some pid"
    and "find_one (\<lambda>p. p_id p = pid) (post_coll d) = Some p"
  shows "add_comment ObjectId (Some d) post_id payload now =
     (Inr \<lparr>c_id = next_oid d, c_post_id = pid, author = strip_or_None (cc_author payload),
           content = strip (cc_content payload), c_device_id = or_None (cc_device_id payload),
           c_created_at = now 0, c_updated_at = now 1\<rparr>,
      Some (d\<lparr>comment_coll := comment_coll d @
               [\<lparr>c_id = next_oid d, c_post_id = pid, author = strip_or_None (cc_author payload),
                 content = strip (cc_content payload),
                 c_device_id = or_None (cc_device_id payload),
                 c_created_at = now 0, c_updated_at = now 1\<rparr>],
               next_oid := Suc (next_oid d),
               post_coll := update_one (\<lambda>p. p_id p = pid)
                 (\<lambda>p. p\<lparr>comments_count := comments_count p + 1, p_updated_at := now 2\<rparr>)
                 (post_coll d)\<rparr>))"
  using assms
  by (simp add: add_comment_def oid_def insert_comment_def Let_def)

lemma list_all_less_Suc: "list_all (\<lambda>x. k x < (n::nat)) xs \<Longrightarrow> list_all (\<lambda>x. k x < Suc n) xs"
  by (induction xs) auto

lemma list_all_fresh: "list_all (\<lambda>x. k x < (n::nat)) xs \<Longrightarrow> n \<notin> k ` set xs"
  by (auto simp: list_all_iff)

lemma list_all_filter: "list_all Q xs \<Longrightarrow> list_all Q (filter P xs)"
  by (induction xs) auto

lemma list_all_update_one:
  "list_all Q xs \<Longrightarrow> (\<And>x. Q x \<Longrightarrow> Q (f x)) \<Longrightarrow> list_all Q (update_one P f xs)"
  by (induction xs) auto

lemma wf_db_vote:
  assumes "wf_db d" and "pid \<in> p_id ` set (post_coll d)"
  shows "wf_db (d\<lparr>vote_coll := vote_coll d @
                [\<lparr>v_id = next_oid d, v_post_id = pid, v_device_id = dev,
                  v_created_at = t0, v_updated_at = t1\<rparr>],
              next_oid := Suc (next_oid d),
              post_coll := update_one (\<lambda>p. p_id p = pid)
                 (\<lambda>p. p\<lparr>votes_count := votes_count p + 1, p_updated_at := t2\<rparr>)
                 (post_coll d)\<rparr>)"
  using assms
  by (simp add: wf_db_def map_update_one list_all_less_Suc list_all_fresh
        list_all_update_one)

lemma wf_db_unvote:
  assumes "wf_db d"
  shows "wf_db (d\<lparr>vote_coll := delete_one (\<lambda>v. v_id v = i) (vote_coll d),
              post_coll := update_one (\<lambda>p. p_id p = pid)
                 (\<lambda>p. p\<lparr>votes_count := votes_count p - 1, p_updated_at := t0\<rparr>)
                 (post_coll d)\<rparr>)"
  using assms
  by (simp add: wf_db_def map_update_one delete_one_distinct distinct_map_filter
        list_all_update_one list_all_filter)

lemma wf_db_comment:
  assumes "wf_db d" and "pid \<in> p_id ` set (post_coll d)"
  shows "wf_db (d\<lparr>comment_coll := comment_coll d @ [\<lparr>c_id = next_oid d, c_post_id = pid, author = a,
                 content = c, c_device_id = dv, c_created_at = t0, c_updated_at = t1\<rparr>],
               next_oid := Suc (next_oid d),
               post_coll := update_one (\<lambda>p. p_id p = pid)
                 (\<lambda>p. p\<lparr>comments_count := comments_count p + 1, p_updated_at := t2\<rparr>)
                 (post_coll d)\<rparr>)"
  using assms
  by (simp add: wf_db_def map_update_one list_all_less_Suc list_all_fresh
        list_all_update_one)

lemma wf_db_post:
  assumes "wf_db d"
  shows "wf_db (d\<lparr>post_coll := post_coll d @ [p\<lparr>p_id := next_oid d\<rparr>],
               next_oid := Suc (next_oid d)\<rparr>)"
  using assms
  by (auto simp add: wf_db_def list_all_less_Suc list_all_fresh list_all_iff)

subsection \<open>One toggle, and many\<close>

lemma find_one_filter_Nil: "filter P xs = [] \<Longrightarrow> find_one P xs = None"
  by (simp add: find_one_None filter_empty_conv)

lemma find_one_filter_Cons: "filter P xs \<noteq> [] \<Longrightarrow> \<exists>e. find_one P xs = Some e"
  by (cases "find_one P xs") (auto simp: find_one_None filter_empty_conv)

lemma toggle_vote_step:
  assumes wf: "wf_db d" and parse: "ObjectId post_id = Some pid"
    and post: "find_one (\<lambda>p. p_id p = pid) (post_coll d) = Some p"
    and cnt: "length (filter (\<lambda>v. v_post_id v = pid \<and> v_device_id v = dev) (vote_coll d)) =
                (if had then 1 else 0)"
  shows "\<exists>d' p'. toggle_vote ObjectId (Some d) post_id dev now =
            (Inr (\<not> had, votes_count p + (if had then - 1 else 1)), Some d') \<and>
          wf_db d' \<and>
          find_one (\<lambda>p. p_id p = pid) (post_coll d') = Some p' \<and>
          votes_count p' = votes_count p + (if had then - 1 else 1) \<and>
          length (filter (\<lambda>v. v_post_id v = pid \<and> v_device_id v = dev) (vote_coll d')) =
            (if had then 0 else 1)"
proof (cases had)
  case True
  let ?Q = "\<lambda>v. v_post_id v = pid \<and> v_device_id v = dev"
  from True cnt have "filter ?Q (vote_coll d) \<noteq> []" by auto
  then obtain e where e: "find_one ?Q (vote_coll d) = Some e"
    using find_one_filter_Cons by blast
  then have em: "e \<in> set (vote_coll d)" and eq: "?Q e"
    using find_one_Some [OF e] by auto
  from wf have dv: "distinct (map v_id (vote_coll d))" by (simp add: wf_db_def)
  let ?d' = "d\<lparr>vote_coll := delete_one (\<lambda>v. v_id v = v_id e) (vote_coll d),
              post_coll := update_one (\<lambda>p. p_id p = pid)
                 (\<lambda>p. p\<lparr>votes_count := votes_count p - 1, p_updated_at := now 0\<rparr>)
                 (post_coll d)\<rparr>"
  have r: "toggle_vote ObjectId (Some d) post_id dev now = (Inr (False, votes_count p - 1), Some ?d')"
    by (rule toggle_vote_unvote) (rule parse post e)+
  have w: "wf_db ?d'" by (rule wf_db_unvote [OF wf])
  have f: "find_one (\<lambda>p. p_id p = pid) (post_coll ?d') =
             Some (p\<lparr>votes_count := votes_count p - 1, p_updated_at := now 0\<rparr>)"
    using post by (simp add: find_one_update_one)
  have "length (filter ?Q (vote_coll d)) =
          length (filter ?Q (filter (\<lambda>x. v_id x \<noteq> v_id e) (vote_coll d))) + (if ?Q e then 1 else 0)"
    by (rule length_filter_delete [OF dv em])
  with True cnt eq have l: "length (filter ?Q (vote_coll ?d')) = 0"
    by (simp add: delete_one_distinct [OF dv])
  from r w f l True show ?thesis by simp
next
  case False
  let ?Q = "\<lambda>v. v_post_id v = pid \<and> v_device_id v = dev"
  from False cnt have n: "find_one ?Q (vote_coll d) = None"
    by (simp add: find_one_filter_Nil)
  let ?d' = "d\<lparr>vote_coll := vote_coll d @
                [\<lparr>v_id = next_oid d, v_post_id = pid, v_device_id = dev,
                  v_created_at = now 0, v_updated_at = now 1\<rparr>],
              next_oid := Suc (next_oid d),
              post_coll := update_one (\<lambda>p. p_id p = pid)
                 (\<lambda>p. p\<lparr>votes_count := votes_count p + 1, p_updated_at := now 2\<rparr>)
                 (post_coll d)\<rparr>"
  have r: "toggle_vote ObjectId (Some d) post_id dev now = (Inr (True, votes_count p + 1), Some ?d')"
    by (rule toggle_vote_vote) (rule parse post n)+
  from find_one_Some [OF post] have "pid \<in> p_id ` set (post_coll d)" by auto
  then have w: "wf_db ?d'" by (rule wf_db_vote [OF wf])
  have f: "find_one (\<lambda>p. p_id p = pid) (post_coll ?d') =
             Some (p\<lparr>votes_count := votes_count p + 1, p_updated_at := now 2\<rparr>)"
    using post by (simp add: find_one_update_one)
  from False cnt have l: "length (filter ?Q (vote_coll ?d')) = 1" by simp
  from r w f l False show ?thesis by simp
qed

lemma toggle_votes_general:
  assumes wf: "wf_db d" and parse: "ObjectId post_id = Some pid"
    and post: "find_one (\<lambda>p. p_id p = pid) (post_coll d) = Some p"
    and cnt: "length (filter (\<lambda>v. v_post_id v = pid \<and> v_device_id v = dev) (vote_coll d)) =
                (if had then 1 else 0)"
  shows "\<exists>d' p'. toggle_votes ObjectId (Some d) post_id dev nows n =
            (map (\<lambda>k. Inr (even k \<noteq> had,
                    votes_count p + (if even k then (if had then - 1 else 1) else 0))) [0..<n],
             Some d') \<and>
          wf_db d' \<and>
          find_one (\<lambda>p. p_id p = pid) (post_coll d') = Some p' \<and>
          votes_count p' = votes_count p + (if odd n then (if had then - 1 else 1) else 0) \<and>
          length (filter (\<lambda>v. v_post_id v = pid \<and> v_device_id v = dev) (vote_coll d')) =
            (if odd n \<noteq> had then 1 else 0)"
proof (induction n)
  case 0
  from wf post cnt show ?case by simp
next
  case (Suc n)
  then obtain d1 p1 where
    run: "toggle_votes ObjectId (Some d) post_id dev nows n =
            (map (\<lambda>k. Inr (even k \<noteq> had,
                    votes_count p + (if even k then (if had then - 1 else 1) else 0))) [0..<n],
             Some d1)"
    and wf1: "wf_db d1"
    and post1: "find_one (\<lambda>p. p_id p = pid) (post_coll d1) = Some p1"
    and c1: "votes_count p1 = votes_count p + (if odd n then (if had then - 1 else 1) else 0)"
    and cnt1: "length (filter (\<lambda>v. v_post_id v = pid \<and> v_device_id v = dev) (vote_coll d1)) =
            (if odd n \<noteq> had then 1 else 0)"
    by blast
  from toggle_vote_step [where ObjectId = ObjectId and post_id = post_id and now = "nows n",
      OF wf1 parse post1 cnt1]
  obtain d2 p2 where
    step: "toggle_vote ObjectId (Some d1) post_id dev (nows n) =
            (Inr (\<not> (odd n \<noteq> had), votes_count p1 + (if odd n \<noteq> had then - 1 else 1)), Some d2)"
    and wf2: "wf_db d2"
    and post2: "find_one (\<lambda>p. p_id p = pid) (post_coll d2) = Some p2"
    and c2: "votes_count p2 = votes_count p1 + (if odd n \<noteq> had then - 1 else 1)"
    and cnt2: "length (filter (\<lambda>v. v_post_id v = pid \<and> v_device_id v = dev) (vote_coll d2)) =
            (if odd n \<noteq> had then 0 else 1)"
    by blast
  have res: "toggle_votes ObjectId (Some d) post_id dev nows (Suc n) =
            (map (\<lambda>k. Inr (even k \<noteq> had,
                    votes_count p + (if even k then (if had then - 1 else 1) else 0))) [0..<Suc n],
             Some d2)"
    using run step c1 by (cases "even n"; cases had; simp)
  have c: "votes_count p2 = votes_count p + (if odd (Suc n) then (if had then - 1 else 1) else 0)"
    using c1 c2 by (cases "even n"; cases had; simp)
  have l: "length (filter (\<lambda>v. v_post_id v = pid \<and> v_device_id v = dev) (vote_coll d2)) =
            (if odd (Suc n) \<noteq> had then 1 else 0)"
    using cnt2 by (cases "even n"; cases had; simp)
  from res wf2 post2 c l show ?case by blast
qed

subsection \<open>Concrete values\<close>

lemma wf_demo_db: "wf_db demo_db"
  by (simp add: wf_db_def demo_db_def)

lemma hex_ObjectId_0: "hex_ObjectId (str ''000000000000000000000000'') = Some 0"
  by (simp add: hex_ObjectId_def str_def hexval_def)

lemma hex_ObjectId_9: "hex_ObjectId (str ''000000000000000000000009'') = Some 9"
  by (simp add: hex_ObjectId_def str_def hexval_def)

lemma hex_ObjectId_bad: "hex_ObjectId (str ''not-an-id'') = None"
  by (simp add: hex_ObjectId_def str_def)

text \<open>
  C1 (as amended). \<open>n\<close> calls of \<^verbatim>\<open>toggle_vote\<close> in sequence for one existing post and one
  device, on a store with unique ids: when the device holds no vote for the post before
  the sequence (\<open>had = False\<close>), the calls with an odd number answer \<open>voted = True\<close> and the
  calls with an even number \<open>voted = False\<close>, and after the \<open>n\<close> calls \<^verbatim>\<open>votes_count\<close> is
  its value before plus 1 if \<open>n\<close> is odd, plus 0 if \<open>n\<close> is even. When the device holds its
  one vote before the sequence (\<open>had = True\<close>) the roles are exchanged: odd calls answer
  \<open>False\<close>, even calls \<open>True\<close>, and the counter ends 1 lower if \<open>n\<close> is odd. Every call
  answers the counter as it stands after that call. (The list is indexed from 0: the
  entry \<open>k\<close> is the answer of call \<open>k + 1\<close>.)
\<close>

theorem toggle_vote_alternates:
  assumes "wf_db d" and "ObjectId post_id = Some pid"
    and "find_one (\<lambda>p. p_id p = pid) (post_coll d) = Some p"
    and "length (filter (\<lambda>v. v_post_id v = pid \<and> v_device_id v = device_id) (vote_coll d)) =
           (if had then 1 else 0)"
  shows "\<exists>d' p'. toggle_votes ObjectId (Some d) post_id device_id nows n =
            (map (\<lambda>k. Inr (even k \<noteq> had,
                    votes_count p + (if even k then (if had then - 1 else 1) else 0))) [0..<n],
             Some d') \<and>
          find_one (\<lambda>p. p_id p = pid) (post_coll d') = Some p' \<and>
          votes_count p' = votes_count p + (if odd n then (if had then - 1 else 1) else 0)"
proof -
  from toggle_votes_general [where ObjectId = ObjectId and post_id = post_id and nows = nows
      and n = n, OF assms]
  show ?thesis by blast
qed

theorem toggle_vote_alternates_witness:
  "wf_db demo_db \<and>
   hex_ObjectId (str ''000000000000000000000000'') = Some 0 \<and>
   find_one (\<lambda>p. p_id p = 0) (post_coll demo_db) = Some (hd (post_coll demo_db)) \<and>
   length (filter (\<lambda>v. v_post_id v = 0 \<and> v_device_id v = str ''phone'') (vote_coll demo_db)) = 0 \<and>
   (\<exists>d' p'. toggle_votes hex_ObjectId (Some demo_db) (str ''000000000000000000000000'')
               (str ''phone'') clocks0 3 =
               ([Inr (True, 2), Inr (False, 1), Inr (True, 2)], Some d') \<and>
            find_one (\<lambda>p. p_id p = 0) (post_coll d') = Some p' \<and> votes_count p' = 2)"
proof -
  have h1: "wf_db demo_db" by (rule wf_demo_db)
  have h2: "hex_ObjectId (str ''000000000000000000000000'') = Some 0" by (rule hex_ObjectId_0)
  have h3: "find_one (\<lambda>p. p_id p = 0) (post_coll demo_db) = Some (hd (post_coll demo_db))"
    by (simp add: find_one_def demo_db_def)
  have h4: "length (filter (\<lambda>v. v_post_id v = 0 \<and> v_device_id v = str ''phone'')
              (vote_coll demo_db)) = (if False then 1 else 0)"
    by (simp add: demo_db_def str_def)
  have v: "votes_count (hd (post_coll demo_db)) = 1" by (simp add: demo_db_def)
  have u: "[0..<3] = [0, 1, 2]" by (simp add: upt_rec)
  from toggle_vote_alternates [where ObjectId = hex_ObjectId and nows = clocks0 and n = 3,
      OF h1 h2 h3 h4]
  have "\<exists>d' p'. toggle_votes hex_ObjectId (Some demo_db) (str ''000000000000000000000000'')
               (str ''phone'') clocks0 3 =
               ([Inr (True, 2), Inr (False, 1), Inr (True, 2)], Some d') \<and>
            find_one (\<lambda>p. p_id p = 0) (post_coll d') = Some p' \<and> votes_count p' = 2"
    by (simp add: v u)
  with h1 h2 h3 h4 show ?thesis by simp
qed

text \<open>
  The claim as it stands, for any post and device, fails on the seeded store: the device
  \<^verbatim>\<open>demo-device\<close> holds a vote for the first sample post, so its first call answers
  \<open>voted = False\<close> and takes the counter from 28 to 27.
\<close>

theorem toggle_vote_first_call_unvotes:
  "fst (toggle_votes hex_ObjectId (seed_posts (Some empty_db) clock0)
          (str ''000000000000000000000000'') (str ''demo-device'') clocks0 (Suc 0)) =
     [Inr (False, 27)]"
  by (simp add: toggle_vote_def oid_def hex_ObjectId_def str_def hexval_def seed_posts_def
      empty_db_def samples_def insert_post_def insert_vote_def find_one_def Let_def)

subsection \<open>Creating posts, failing lookups, malformed ids, comments\<close>

lemma rev_split: "xs = rev (dropWhile P (rev xs)) @ rev (takeWhile P (rev xs))"
proof -
  have "rev (takeWhile P (rev xs) @ dropWhile P (rev xs)) = xs"
    by (simp only: takeWhile_dropWhile_id rev_rev_ident)
  then show ?thesis by (simp only: rev_append)
qed

lemma strip_decomp: "\<exists>a b. s = a @ strip s @ b \<and> list_all isspace a \<and> list_all isspace b"
proof -
  let ?t = "dropWhile isspace s"
  let ?a = "takeWhile isspace s"
  let ?b = "rev (takeWhile isspace (rev ?t))"
  have t: "?t = strip s @ ?b" unfolding strip_def by (rule rev_split)
  have "s = ?a @ ?t" by simp
  with t have "s = ?a @ strip s @ ?b" by simp
  moreover have "list_all isspace ?a" by (simp add: list_all_iff) (meson set_takeWhileD)
  moreover have "list_all isspace ?b" by (simp add: list_all_iff) (meson set_takeWhileD)
  ultimately show ?thesis by blast
qed

lemma strip_last: "strip s \<noteq> [] \<Longrightarrow> \<not> isspace (last (strip s))"
proof -
  assume "strip s \<noteq> []"
  then have n: "dropWhile isspace (rev (dropWhile isspace s)) \<noteq> []" by (simp add: strip_def)
  then have "\<not> isspace (hd (dropWhile isspace (rev (dropWhile isspace s))))"
    by (rule hd_dropWhile)
  with n show ?thesis by (simp add: strip_def last_rev)
qed

lemma strip_hd: "strip s \<noteq> [] \<Longrightarrow> \<not> isspace (hd (strip s))"
proof -
  assume ne: "strip s \<noteq> []"
  let ?t = "dropWhile isspace s"
  have t: "?t = strip s @ rev (takeWhile isspace (rev ?t))"
    unfolding strip_def by (rule rev_split)
  with ne have "?t \<noteq> []" by (metis append_is_Nil_conv)
  then have "\<not> isspace (hd ?t)" by (rule hd_dropWhile)
  moreover from t ne have "hd ?t = hd (strip s)" by (metis hd_append2)
  ultimately show ?thesis by simp
qed

lemma strip_all_space: "list_all isspace s \<Longrightarrow> strip s = []"
proof -
  assume "list_all isspace s"
  then have "dropWhile isspace s = []" by (induction s) auto
  then show ?thesis by (simp only: strip_def rev.simps dropWhile.simps)
qed

text \<open>
  C10. On an available store \<^verbatim>\<open>create_post\<close> always succeeds and appends the post it
  returns: both counters are 0; title and tagline are the inputs without the white space
  at their ends (the input is white space, the stored text, white space, and the stored
  text neither begins nor ends with white space); maker and url are \<open>None\<close> when absent or
  empty after trimming, and the trimmed text otherwise; \<^verbatim>\<open>created_at\<close> and \<^verbatim>\<open>updated_at\<close>
  are the two clock readings of the call. A title or tagline of white space only (or
  empty) is stored as the empty string: no error is raised.
\<close>

theorem create_post_stores_trimmed:
  "\<exists>doc d'. create_post (Some d) data now = (Inr doc, Some d') \<and>
     post_coll d' = post_coll d @ [doc] \<and>
     votes_count doc = 0 \<and> comments_count doc = 0 \<and>
     title doc = strip (pc_title data) \<and> tagline doc = strip (pc_tagline data) \<and>
     (\<exists>a b. pc_title data = a @ title doc @ b \<and> list_all isspace a \<and> list_all isspace b) \<and>
     (\<exists>a b. pc_tagline data = a @ tagline doc @ b \<and> list_all isspace a \<and> list_all isspace b) \<and>
     (title doc \<noteq> [] \<longrightarrow> \<not> isspace (hd (title doc)) \<and> \<not> isspace (last (title doc))) \<and>
     (tagline doc \<noteq> [] \<longrightarrow> \<not> isspace (hd (tagline doc)) \<and> \<not> isspace (last (tagline doc))) \<and>
     maker doc = (case pc_maker data of None \<Rightarrow> None
                  | Some m \<Rightarrow> if strip m = [] then None else Some (strip m)) \<and>
     url doc = (case pc_url data of None \<Rightarrow> None
                | Some u \<Rightarrow> if strip u = [] then None else Some (strip u)) \<and>
     p_created_at doc = now 0 \<and> p_updated_at doc = now 1 \<and>
     (list_all isspace (pc_title data) \<longrightarrow> title doc = []) \<and>
     (list_all isspace (pc_tagline data) \<longrightarrow> tagline doc = [])"
proof -
  have e: "strip [] = []" by (simp add: strip_def)
  show ?thesis
    unfolding create_post_Some
    using strip_decomp [of "pc_title data"] strip_decomp [of "pc_tagline data"]
    by (simp add: strip_hd strip_last strip_all_space strip_or_None_def e
          split: option.split)
qed


theorem create_post_stores_trimmed_witness:
  "list_all isspace (str ''   '') \<and>
   (\<exists>doc d'. create_post (Some demo_db)
        \<lparr>pc_title = str ''  Hi '', pc_tagline = str ''   '', pc_maker = Some (str '' ''),
         pc_url = None\<rparr> clock0 = (Inr doc, Some d') \<and>
      post_coll d' = post_coll demo_db @ [doc] \<and>
      votes_count doc = 0 \<and> comments_count doc = 0 \<and>
      title doc = str ''Hi'' \<and> tagline doc = [] \<and> maker doc = None \<and> url doc = None)"
proof -
  have s1: "strip (str ''  Hi '') = str ''Hi''" by (simp add: strip_def str_def isspace_def)
  have s2: "strip (str '' '') = []" by (simp add: strip_def str_def isspace_def)
  have s3: "list_all isspace (str ''   '')" by (simp add: str_def isspace_def)
  from create_post_stores_trimmed [of demo_db
      "\<lparr>pc_title = str ''  Hi '', pc_tagline = str ''   '', pc_maker = Some (str '' ''),
        pc_url = None\<rparr>" clock0]
  obtain doc d' where
    "create_post (Some demo_db)
        \<lparr>pc_title = str ''  Hi '', pc_tagline = str ''   '', pc_maker = Some (str '' ''),
         pc_url = None\<rparr> clock0 = (Inr doc, Some d')"
    "post_coll d' = post_coll demo_db @ [doc]"
    "votes_count doc = 0" "comments_count doc = 0"
    "title doc = str ''Hi''" "tagline doc = []" "maker doc = None" "url doc = None"
    using s1 s2 s3 by auto
  with s3 show ?thesis by blast
qed

text \<open>
  C4. On a store that holds no post with the parsed id, \<^verbatim>\<open>toggle_vote\<close> and
  \<^verbatim>\<open>add_comment\<close> both fail with \<open>NotFound\<close>, and the store they leave is the store they
  found: no vote, no comment, no counter changed.
\<close>

theorem not_found_changes_nothing:
  assumes "ObjectId post_id = Some pid"
    and "find_one (\<lambda>p. p_id p = pid) (post_coll d) = None"
  shows "toggle_vote ObjectId (Some d) post_id device_id now = (Inl NotFound, Some d) \<and>
         add_comment ObjectId (Some d) post_id payload now' = (Inl NotFound, Some d)"
  using assms by (simp add: toggle_vote_def add_comment_def oid_def)

theorem not_found_changes_nothing_witness:
  "hex_ObjectId (str ''000000000000000000000009'') = Some 9 \<and>
   find_one (\<lambda>p. p_id p = 9) (post_coll demo_db) = None \<and>
   toggle_vote hex_ObjectId (Some demo_db) (str ''000000000000000000000009'') (str ''phone'')
     clock0 = (Inl NotFound, Some demo_db) \<and>
   add_comment hex_ObjectId (Some demo_db) (str ''000000000000000000000009'')
     \<lparr>cc_content = str ''Hello'', cc_author = None, cc_device_id = None\<rparr> clock0 =
     (Inl NotFound, Some demo_db)"
proof -
  have h1: "hex_ObjectId (str ''000000000000000000000009'') = Some 9" by (rule hex_ObjectId_9)
  have h2: "find_one (\<lambda>p. p_id p = 9) (post_coll demo_db) = None"
    by (simp add: find_one_def demo_db_def)
  from not_found_changes_nothing [where ObjectId = hex_ObjectId, OF h1 h2] h1 h2
  show ?thesis by simp
qed

text \<open>
  C9 (as amended). An id string the parser rejects: on an available store each of
  \<^verbatim>\<open>get_post\<close>, \<^verbatim>\<open>toggle_vote\<close>, \<^verbatim>\<open>add_comment\<close> and \<^verbatim>\<open>list_comments\<close> fails with
  \<open>InvalidId\<close> and leaves the store as it was; \<^verbatim>\<open>add_comment\<close> and \<^verbatim>\<open>list_comments\<close> do so
  whatever the store handle is, since they parse the id first. \<^verbatim>\<open>toggle_vote\<close> tests the
  store handle before it parses the id: without a store it fails with \<open>StoreUnavailable\<close>.
\<close>

theorem invalid_id_rejected:
  assumes "ObjectId post_id = None"
  shows "get_post ObjectId (Some d) post_id = Inl InvalidId \<and>
         toggle_vote ObjectId (Some d) post_id device_id now = (Inl InvalidId, Some d) \<and>
         add_comment ObjectId db post_id payload now' = (Inl InvalidId, db) \<and>
         list_comments ObjectId db post_id = Inl InvalidId \<and>
         toggle_vote ObjectId None post_id device_id now = (Inl StoreUnavailable, None)"
  using assms
  by (simp add: get_post_def toggle_vote_def add_comment_def list_comments_def oid_def)

theorem invalid_id_rejected_witness:
  "hex_ObjectId (str ''not-an-id'') = None \<and>
   get_post hex_ObjectId (Some demo_db) (str ''not-an-id'') = Inl InvalidId \<and>
   toggle_vote hex_ObjectId (Some demo_db) (str ''not-an-id'') (str ''phone'') clock0 =
     (Inl InvalidId, Some demo_db) \<and>
   add_comment hex_ObjectId (Some demo_db) (str ''not-an-id'')
     \<lparr>cc_content = str ''Hello'', cc_author = None, cc_device_id = None\<rparr> clock0 =
     (Inl InvalidId, Some demo_db) \<and>
   list_comments hex_ObjectId (Some demo_db) (str ''not-an-id'') = Inl InvalidId"
proof -
  have h: "hex_ObjectId (str ''not-an-id'') = None" by (rule hex_ObjectId_bad)
  from invalid_id_rejected [where ObjectId = hex_ObjectId, OF h] h
  show ?thesis by simp
qed

text \<open>
  The claim as it stands fails where no store is configured: \<^verbatim>\<open>toggle_vote\<close> answers a
  malformed id with the server error \<open>StoreUnavailable\<close>, not with \<open>InvalidId\<close>.
\<close>

theorem invalid_id_without_store:
  "hex_ObjectId (str ''not-an-id'') = None \<and>
   toggle_vote hex_ObjectId None (str ''not-an-id'') (str ''phone'') clock0 =
     (Inl StoreUnavailable, None)"
  by (simp add: hex_ObjectId_def str_def toggle_vote_def)

text \<open>
  C5 (as amended). \<^verbatim>\<open>add_comment\<close> on an existing post trims the content and inserts the
  comment whatever is left: it never fails once the post is found. The stored content is
  the input without the white space at its ends; the comment is appended, and the
  post's \<^verbatim>\<open>comments_count\<close> grows by 1. Content of white space only is stored as the
  empty string and counted like any other.
\<close>

theorem add_comment_trims_and_inserts:
  assumes "ObjectId post_id = Some pid"
    and "find_one (\<lambda>p. p_id p = pid) (post_coll d) = Some p"
  shows "\<exists>doc d' p'. add_comment ObjectId (Some d) post_id payload now = (Inr doc, Some d') \<and>
     comment_coll d' = comment_coll d @ [doc] \<and>
     c_post_id doc = pid \<and>
     content doc = strip (cc_content payload) \<and>
     (\<exists>a b. cc_content payload = a @ content doc @ b \<and>
            list_all isspace a \<and> list_all isspace b) \<and>
     (content doc \<noteq> [] \<longrightarrow> \<not> isspace (hd (content doc)) \<and> \<not> isspace (last (content doc))) \<and>
     (list_all isspace (cc_content payload) \<longrightarrow> content doc = []) \<and>
     find_one (\<lambda>p. p_id p = pid) (post_coll d') = Some p' \<and>
     comments_count p' = comments_count p + 1"
proof -
  have r: "add_comment ObjectId (Some d) post_id payload now =
     (Inr \<lparr>c_id = next_oid d, c_post_id = pid, author = strip_or_None (cc_author payload),
           content = strip (cc_content payload), c_device_id = or_None (cc_device_id payload),
           c_created_at = now 0, c_updated_at = now 1\<rparr>,
      Some (d\<lparr>comment_coll := comment_coll d @
               [\<lparr>c_id = next_oid d, c_post_id = pid, author = strip_or_None (cc_author payload),
                 content = strip (cc_content payload),
                 c_device_id = or_None (cc_device_id payload),
                 c_created_at = now 0, c_updated_at = now 1\<rparr>],
               next_oid := Suc (next_oid d),
               post_coll := update_one (\<lambda>p. p_id p = pid)
                 (\<lambda>p. p\<lparr>comments_count := comments_count p + 1, p_updated_at := now 2\<rparr>)
                 (post_coll d)\<rparr>))"
    by (rule add_comment_Some) (rule assms)+
  show ?thesis
    unfolding r
    using strip_decomp [of "cc_content payload"] assms(2)
    by (simp add: strip_hd strip_last strip_all_space find_one_update_one)
qed

theorem add_comment_trims_and_inserts_witness:
  "hex_ObjectId (str ''000000000000000000000000'') = Some 0 \<and>
   find_one (\<lambda>p. p_id p = 0) (post_coll demo_db) = Some (hd (post_coll demo_db)) \<and>
   list_all isspace (str ''   '') \<and>
   (\<exists>doc d' p'. add_comment hex_ObjectId (Some demo_db) (str ''000000000000000000000000'')
        \<lparr>cc_content = str ''   '', cc_author = None, cc_device_id = None\<rparr> clock0 =
        (Inr doc, Some d') \<and>
      comment_coll d' = comment_coll demo_db @ [doc] \<and> content doc = [] \<and>
      find_one (\<lambda>p. p_id p = 0) (post_coll d') = Some p' \<and> comments_count p' = 2)"
proof -
  have h1: "hex_ObjectId (str ''000000000000000000000000'') = Some 0" by (rule hex_ObjectId_0)
  have h2: "find_one (\<lambda>p. p_id p = 0) (post_coll demo_db) = Some (hd (post_coll demo_db))"
    by (simp add: find_one_def demo_db_def)
  have h3: "list_all isspace (str ''   '')" by (simp add: str_def isspace_def)
  have c: "comments_count (hd (post_coll demo_db)) = 1" by (simp add: demo_db_def)
  from add_comment_trims_and_inserts [where ObjectId = hex_ObjectId and now = clock0
      and payload = "\<lparr>cc_content = str ''   '', cc_author = None, cc_device_id = None\<rparr>",
      OF h1 h2]
  obtain doc d' p' where
    "add_comment hex_ObjectId (Some demo_db) (str ''000000000000000000000000'')
        \<lparr>cc_content = str ''   '', cc_author = None, cc_device_id = None\<rparr> clock0 =
        (Inr doc, Some d')"
    "comment_coll d' = comment_coll demo_db @ [doc]" "content doc = []"
    "find_one (\<lambda>p. p_id p = 0) (post_coll d') = Some p'" "comments_count p' = 2"
    using h3 c by auto
  with h1 h2 h3 show ?thesis by blast
qed

text \<open>
  The claim as it stands fails: no validation error exists in \<^verbatim>\<open>add_comment\<close>. Content of
  three blanks on the first post of the demo store is inserted with empty content, and
  the counter of the post goes from 1 to 2.
\<close>

theorem add_comment_accepts_blank_content:
  "fst (add_comment hex_ObjectId (Some demo_db) (str ''000000000000000000000000'')
          \<lparr>cc_content = str ''   '', cc_author = None, cc_device_id = None\<rparr> clock0) =
     Inr \<lparr>c_id = 4, c_post_id = 0, author = None, content = [], c_device_id = None,
          c_created_at = 0, c_updated_at = 0\<rparr> \<and>
   map content (case_option [] comment_coll
     (snd (add_comment hex_ObjectId (Some demo_db) (str ''000000000000000000000000'')
          \<lparr>cc_content = str ''   '', cc_author = None, cc_device_id = None\<rparr> clock0))) =
     [str ''Nice'', []] \<and>
   map comments_count (case_option [] post_coll
     (snd (add_comment hex_ObjectId (Some demo_db) (str ''000000000000000000000000'')
          \<lparr>cc_content = str ''   '', cc_author = None, cc_device_id = None\<rparr> clock0))) =
     [2, 0]"
  by (simp add: add_comment_def oid_def hex_ObjectId_def hexval_def str_def demo_db_def
      find_one_def insert_comment_def strip_def isspace_def strip_or_None_def or_None_def
      clock0_def Let_def)

subsection \<open>Listing posts\<close>

lemma week_month: "str ''week'' \<noteq> str ''month''"
  by (simp add: str_def)

text \<open>
  C6. \<^verbatim>\<open>list_posts\<close> on a store returns, in some order, exactly the posts that pass the
  filter of the range argument: with \<^verbatim>\<open>week\<close> the posts created at or after the clock
  reading minus 7 days, with \<^verbatim>\<open>month\<close> at or after the reading minus 30 days, with any
  other value all posts. A post dated at or after the clock reading is never left out.
  With \<^verbatim>\<open>week\<close>, a post created 7 days and 1 second before the reading is left out and
  one created 6 days and 23 hours before it is returned.
\<close>

theorem list_posts_range_filter:
  "(range_arg = str ''week'' \<longrightarrow>
      mset (list_posts (Some d) range_arg sort_arg now) =
      mset (filter (\<lambda>p. now 0 - 7 * 86400000 \<le> p_created_at p) (post_coll d))) \<and>
   (range_arg = str ''month'' \<longrightarrow>
      mset (list_posts (Some d) range_arg sort_arg now) =
      mset (filter (\<lambda>p. now 0 - 30 * 86400000 \<le> p_created_at p) (post_coll d))) \<and>
   (range_arg \<noteq> str ''week'' \<and> range_arg \<noteq> str ''month'' \<longrightarrow>
      mset (list_posts (Some d) range_arg sort_arg now) = mset (post_coll d)) \<and>
   (\<forall>p\<in>set (post_coll d). now 0 \<le> p_created_at p \<longrightarrow>
      p \<in> set (list_posts (Some d) range_arg sort_arg now)) \<and>
   (\<forall>p\<in>set (post_coll d). p_created_at p = now 0 - (days 7 + seconds 1) \<longrightarrow>
      p \<notin> set (list_posts (Some d) (str ''week'') sort_arg now)) \<and>
   (\<forall>p\<in>set (post_coll d). p_created_at p = now 0 - (days 6 + hours 23) \<longrightarrow>
      p \<in> set (list_posts (Some d) (str ''week'') sort_arg now))"
  by (simp add: list_posts_def sort_desc_def Let_def days_def hours_def seconds_def week_month)

theorem list_posts_range_filter_witness:
  "post_a \<in> set (post_coll listing_db) \<and>
   p_created_at post_a = clock_listing 0 - (days 7 + seconds 1) \<and>
   post_a \<notin> set (list_posts (Some listing_db) (str ''week'') (str ''votes'') clock_listing) \<and>
   post_b \<in> set (post_coll listing_db) \<and>
   p_created_at post_b = clock_listing 0 - (days 6 + hours 23) \<and>
   post_b \<in> set (list_posts (Some listing_db) (str ''week'') (str ''votes'') clock_listing) \<and>
   post_c \<in> set (post_coll listing_db) \<and>
   clock_listing 0 \<le> p_created_at post_c \<and>
   post_c \<in> set (list_posts (Some listing_db) (str ''week'') (str ''votes'') clock_listing) \<and>
   mset (list_posts (Some listing_db) (str ''week'') (str ''votes'') clock_listing) =
     {#post_b, post_c#} \<and>
   mset (list_posts (Some listing_db) (str ''month'') (str ''votes'') clock_listing) =
     {#post_a, post_b, post_c#} \<and>
   mset (list_posts (Some listing_db) (str ''all'') (str ''votes'') clock_listing) =
     {#post_a, post_b, post_c#}"
proof -
  have m: "post_a \<in> set (post_coll listing_db)" "post_b \<in> set (post_coll listing_db)"
    "post_c \<in> set (post_coll listing_db)"
    by (simp_all add: listing_db_def)
  have t: "p_created_at post_a = clock_listing 0 - (days 7 + seconds 1)"
    "p_created_at post_b = clock_listing 0 - (days 6 + hours 23)"
    "clock_listing 0 \<le> p_created_at post_c"
    by (simp_all add: post_a_def post_b_def post_c_def clock_listing_def days_def hours_def
        seconds_def)
  have f: "filter (\<lambda>p. clock_listing 0 - 7 * 86400000 \<le> p_created_at p) (post_coll listing_db) =
      [post_b, post_c]"
    "filter (\<lambda>p. clock_listing 0 - 30 * 86400000 \<le> p_created_at p) (post_coll listing_db) =
      [post_a, post_b, post_c]"
    by (simp_all add: listing_db_def post_a_def post_b_def post_c_def clock_listing_def)
  have n: "str ''all'' \<noteq> str ''week''" "str ''all'' \<noteq> str ''month''"
    by (simp_all add: str_def)
  from list_posts_range_filter [of "str ''week''" listing_db "str ''votes''" clock_listing]
    list_posts_range_filter [of "str ''month''" listing_db "str ''votes''" clock_listing]
    list_posts_range_filter [of "str ''all''" listing_db "str ''votes''" clock_listing]
    m t f n
  show ?thesis by (simp add: listing_db_def)
qed





subsection \<open>What every reachable store satisfies\<close>

lemma unique_votes_vote:
  assumes "unique_votes d"
    and "find_one (\<lambda>v. v_post_id v = pid \<and> v_device_id v = dev) (vote_coll d) = None"
  shows "unique_votes (d\<lparr>vote_coll := vote_coll d @
                [\<lparr>v_id = i, v_post_id = pid, v_device_id = dev,
                  v_created_at = t0, v_updated_at = t1\<rparr>],
              next_oid := n, post_coll := ps\<rparr>)"
  using assms by (auto simp: unique_votes_def find_one_None)

lemma unique_votes_unvote:
  assumes "unique_votes d" and "distinct (map v_id (vote_coll d))"
  shows "unique_votes (d\<lparr>vote_coll := delete_one (\<lambda>v. v_id v = i) (vote_coll d),
              post_coll := ps\<rparr>)"
  using assms by (simp add: unique_votes_def delete_one_distinct distinct_map_filter)

lemma toggle_vote_invariant:
  assumes wf: "wf_db d" and u: "unique_votes d"
  shows "\<exists>d'. snd (toggle_vote ObjectId (Some d) post_id dev now) = Some d' \<and>
           wf_db d' \<and> unique_votes d'"
proof (cases "ObjectId post_id")
  case None
  with wf u show ?thesis by (simp add: toggle_vote_def oid_def)
next
  case (Some pid)
  show ?thesis
  proof (cases "find_one (\<lambda>p. p_id p = pid) (post_coll d)")
    case None
    with Some wf u show ?thesis by (simp add: toggle_vote_def oid_def)
  next
    case p: (Some p)
    from find_one_Some [OF p] have m: "pid \<in> p_id ` set (post_coll d)" by auto
    from wf have dv: "distinct (map v_id (vote_coll d))" by (simp add: wf_db_def)
    show ?thesis
    proof (cases "find_one (\<lambda>v. v_post_id v = pid \<and> v_device_id v = dev) (vote_coll d)")
      case None
      show ?thesis
        unfolding toggle_vote_vote [of ObjectId, OF Some p None]
        using wf_db_vote [OF wf m] unique_votes_vote [OF u None] by simp
    next
      case e: (Some e)
      show ?thesis
        unfolding toggle_vote_unvote [of ObjectId, OF Some p e]
        using wf_db_unvote [OF wf] unique_votes_unvote [OF u dv] by simp
    qed
  qed
qed

lemma create_post_invariant:
  assumes wf: "wf_db d" and u: "unique_votes d"
  shows "\<exists>d'. snd (create_post (Some d) data now) = Some d' \<and> wf_db d' \<and> unique_votes d'"
proof -
  let ?p = "\<lparr>p_id = 0, title = strip (pc_title data), tagline = strip (pc_tagline data),
           maker = strip_or_None (pc_maker data), url = strip_or_None (pc_url data),
           votes_count = 0, comments_count = 0, p_created_at = now 0, p_updated_at = now 1\<rparr>"
  from wf_db_post [OF wf, of ?p] u show ?thesis
    by (simp add: create_post_Some unique_votes_def)
qed

lemma add_comment_invariant:
  assumes wf: "wf_db d" and u: "unique_votes d"
  shows "\<exists>d'. snd (add_comment ObjectId (Some d) post_id payload now) = Some d' \<and>
           wf_db d' \<and> unique_votes d'"
proof (cases "ObjectId post_id")
  case None
  with wf u show ?thesis by (simp add: add_comment_def oid_def)
next
  case (Some pid)
  show ?thesis
  proof (cases "find_one (\<lambda>p. p_id p = pid) (post_coll d)")
    case None
    with Some wf u show ?thesis by (simp add: add_comment_def oid_def)
  next
    case p: (Some p)
    from find_one_Some [OF p] have m: "pid \<in> p_id ` set (post_coll d)" by auto
    show ?thesis
      unfolding add_comment_Some [of ObjectId, OF Some p]
      using wf_db_comment [OF wf m] u by (simp add: unique_votes_def)
  qed
qed

lemma wf_db_no_posts:
  assumes "wf_db d" and "post_coll d = []"
  shows "d = \<lparr>post_coll = [], vote_coll = [], comment_coll = [], next_oid = next_oid d\<rparr>"
proof -
  have v: "vote_coll d = []" using assms by (cases "vote_coll d") (simp_all add: wf_db_def)
  have c: "comment_coll d = []"
    using assms by (cases "comment_coll d") (simp_all add: wf_db_def)
  from v c assms(2) show ?thesis by simp
qed

lemma seed_posts_fresh:
  "\<exists>d'. seed_posts (Some \<lparr>post_coll = [], vote_coll = [], comment_coll = [], next_oid = n\<rparr>) now
           = Some d' \<and> wf_db d' \<and> unique_votes d'"
  by (simp add: seed_posts_def samples_def insert_post_def insert_vote_def Let_def
      wf_db_def unique_votes_def)

lemma seed_posts_invariant:
  assumes wf: "wf_db d" and u: "unique_votes d"
  shows "\<exists>d'. seed_posts (Some d) now = Some d' \<and> wf_db d' \<and> unique_votes d'"
proof (cases "post_coll d = []")
  case True
  from wf_db_no_posts [OF wf True] seed_posts_fresh [of "next_oid d" now]
  show ?thesis by simp
next
  case False
  with wf u show ?thesis by (simp add: seed_posts_def)
qed

lemma reachable_invariant:
  "reachable ObjectId db \<Longrightarrow> \<exists>d. db = Some d \<and> wf_db d \<and> unique_votes d"
proof (induction rule: reachable.induct)
  case initial
  show ?case by (simp add: empty_db_def wf_db_def unique_votes_def)
next
  case (startup db now)
  then show ?case using seed_posts_invariant by blast
next
  case (post_created db data now)
  then show ?case using create_post_invariant by blast
next
  case (vote_toggled db post_id device_id now)
  then show ?case using toggle_vote_invariant by blast
next
  case (comment_added db post_id payload now)
  then show ?case using add_comment_invariant by blast
qed

subsection \<open>Votes and comments of a post\<close>

lemma run_store_reachable: "reachable hex_ObjectId (Some run_store)"
proof -
  let ?s1 = "snd (create_post (Some empty_db)
      \<lparr>pc_title = str ''Idea'', pc_tagline = str ''One line'', pc_maker = None, pc_url = None\<rparr>
      clock0)"
  let ?s2 = "snd (add_comment hex_ObjectId ?s1 (str ''000000000000000000000000'')
      \<lparr>cc_content = str ''first'', cc_author = None, cc_device_id = None\<rparr> clock0)"
  let ?s3 = "snd (add_comment hex_ObjectId ?s2 (str ''000000000000000000000000'')
      \<lparr>cc_content = str ''second'', cc_author = None, cc_device_id = None\<rparr> clock_listing)"
  have "reachable hex_ObjectId ?s3"
    by (intro reachable.comment_added reachable.post_created reachable.initial)
  moreover have "?s3 = Some run_store"
    by (simp add: create_post_def add_comment_def oid_def hex_ObjectId_def hexval_def str_def
        empty_db_def run_store_def find_one_def insert_post_def insert_comment_def strip_def
        isspace_def strip_or_None_def or_None_def clock0_def clock_listing_def Let_def)
  ultimately show ?thesis by simp
qed

lemma seeded_reachable: "reachable hex_ObjectId (seed_posts (Some empty_db) clock0)"
  by (intro reachable.startup reachable.initial)

text \<open>
  C3. In every store the program reaches from an empty database (seeding at startup and
  any sequence of requests) there is at most one vote for a pair of post and device.
  And each operation keeps it so on any store with unique ids whose votes and comments
  refer to existing posts: \<^verbatim>\<open>toggle_vote\<close> (it inserts only when the lookup of the exact
  pair finds nothing, and deletes the vote it found otherwise), \<^verbatim>\<open>create_post\<close>,
  \<^verbatim>\<open>add_comment\<close> and \<^verbatim>\<open>seed_posts\<close>.
\<close>

theorem one_vote_per_post_and_device:
  "(reachable ObjectId db \<longrightarrow> (\<exists>d. db = Some d \<and> unique_votes d)) \<and>
   (wf_db d \<and> unique_votes d \<longrightarrow>
      (\<exists>d'. snd (toggle_vote ObjectId (Some d) post_id device_id now) = Some d' \<and>
            unique_votes d') \<and>
      (\<exists>d'. snd (create_post (Some d) data now) = Some d' \<and> unique_votes d') \<and>
      (\<exists>d'. snd (add_comment ObjectId (Some d) post_id payload now) = Some d' \<and>
            unique_votes d') \<and>
      (\<exists>d'. seed_posts (Some d) now = Some d' \<and> unique_votes d'))"
  using reachable_invariant [of ObjectId db]
    toggle_vote_invariant [of d ObjectId post_id device_id now]
    create_post_invariant [of d data now]
    add_comment_invariant [of d ObjectId post_id payload now]
    seed_posts_invariant [of d now]
  by blast

theorem one_vote_per_post_and_device_witness:
  "reachable hex_ObjectId (seed_posts (Some empty_db) clock0) \<and>
   (\<exists>d. seed_posts (Some empty_db) clock0 = Some d \<and> unique_votes d) \<and>
   wf_db demo_db \<and> unique_votes demo_db \<and>
   (\<exists>d'. snd (toggle_vote hex_ObjectId (Some demo_db) (str ''000000000000000000000000'')
             (str ''demo-device'') clock0) = Some d' \<and> unique_votes d') \<and>
   (\<exists>d'. snd (toggle_vote hex_ObjectId (Some demo_db) (str ''000000000000000000000001'')
             (str ''demo-device'') clock0) = Some d' \<and> unique_votes d')"
proof -
  have r: "reachable hex_ObjectId (seed_posts (Some empty_db) clock0)"
    by (rule seeded_reachable)
  have w: "wf_db demo_db" by (rule wf_demo_db)
  have u: "unique_votes demo_db" by (simp add: unique_votes_def demo_db_def)
  from one_vote_per_post_and_device [of hex_ObjectId "seed_posts (Some empty_db) clock0"
      demo_db "str ''000000000000000000000000''" "str ''demo-device''" clock0]
    one_vote_per_post_and_device [of hex_ObjectId "seed_posts (Some empty_db) clock0"
      demo_db "str ''000000000000000000000001''" "str ''demo-device''" clock0]
    r w u
  show ?thesis by blast
qed

text \<open>
  C8. For an id that parses, \<^verbatim>\<open>list_comments\<close> on a store never fails: it returns
  exactly the comments whose \<^verbatim>\<open>post_id\<close> is the parsed id, the later \<^verbatim>\<open>created_at\<close>
  first. It does not look the post up; in a store the program has reached, where every
  comment belongs to a post, the result for an id of no post is the empty list.
\<close>

theorem list_comments_of_post:
  assumes "ObjectId post_id = Some pid"
  shows "\<exists>cs. list_comments ObjectId (Some d) post_id = Inr cs \<and>
     mset cs = mset (filter (\<lambda>c. c_post_id c = pid) (comment_coll d)) \<and>
     sorted_wrt (\<lambda>a b. c_created_at b \<le> c_created_at a) cs \<and>
     (reachable ObjectId (Some d) \<and> find_one (\<lambda>p. p_id p = pid) (post_coll d) = None \<longrightarrow>
        cs = [])"
proof -
  let ?cs = "sort_key (\<lambda>c. - c_created_at c) (filter (\<lambda>c. c_post_id c = pid) (comment_coll d))"
  have r: "list_comments ObjectId (Some d) post_id = Inr ?cs"
    using assms by (simp add: list_comments_def oid_def)
  have m: "mset ?cs = mset (filter (\<lambda>c. c_post_id c = pid) (comment_coll d))" by simp
  have "sorted (map (\<lambda>c. - c_created_at c) ?cs)" by (rule sorted_sort_key)
  then have s: "sorted_wrt (\<lambda>a b. c_created_at b \<le> c_created_at a) ?cs"
    by (simp add: sorted_map)
  have e: "reachable ObjectId (Some d) \<and> find_one (\<lambda>p. p_id p = pid) (post_coll d) = None \<longrightarrow>
        ?cs = []"
  proof
    assume a: "reachable ObjectId (Some d) \<and> find_one (\<lambda>p. p_id p = pid) (post_coll d) = None"
    then have "wf_db d" using reachable_invariant [of ObjectId "Some d"] by simp
    then have c: "\<forall>c\<in>set (comment_coll d). c_post_id c \<in> p_id ` set (post_coll d)"
      by (simp add: wf_db_def list_all_iff)
    from a have "pid \<notin> p_id ` set (post_coll d)" by (auto simp: find_one_None)
    with c have "filter (\<lambda>c. c_post_id c = pid) (comment_coll d) = []"
      by (auto simp: filter_empty_conv)
    then show "?cs = []" by simp
  qed
  from r m s e show ?thesis by blast
qed


theorem list_comments_of_post_witness:
  "hex_ObjectId (str ''000000000000000000000000'') = Some 0 \<and>
   hex_ObjectId (str ''000000000000000000000009'') = Some 9 \<and>
   reachable hex_ObjectId (Some run_store) \<and>
   find_one (\<lambda>p. p_id p = 9) (post_coll run_store) = None \<and>
   list_comments hex_ObjectId (Some run_store) (str ''000000000000000000000000'') =
     Inr [comment_coll run_store ! 1, comment_coll run_store ! 0] \<and>
   list_comments hex_ObjectId (Some run_store) (str ''000000000000000000000009'') = Inr []"
proof -
  have h0: "hex_ObjectId (str ''000000000000000000000000'') = Some 0" by (rule hex_ObjectId_0)
  have h9: "hex_ObjectId (str ''000000000000000000000009'') = Some 9" by (rule hex_ObjectId_9)
  have r: "reachable hex_ObjectId (Some run_store)" by (rule run_store_reachable)
  have n: "find_one (\<lambda>p. p_id p = 9) (post_coll run_store) = None"
    by (simp add: find_one_def run_store_def)
  from list_comments_of_post [where ObjectId = hex_ObjectId and d = run_store, OF h9] r n
  have l9: "list_comments hex_ObjectId (Some run_store) (str ''000000000000000000000009'') =
      Inr []"
    by auto
  have l0: "list_comments hex_ObjectId (Some run_store) (str ''000000000000000000000000'') =
     Inr [comment_coll run_store ! 1, comment_coll run_store ! 0]"
    by (simp add: list_comments_def oid_def h0 run_store_def)
  from h0 h9 r n l0 l9 show ?thesis by simp
qed

subsection \<open>The cached counters\<close>

lemma counters_consistent_surpluses:
  "counters_consistent d = list_all (\<lambda>s. snd s = (0, 0)) (surpluses d)"
  by (simp add: counters_consistent_def surpluses_def votes_surplus_def comments_surplus_def
      list_all_iff)

lemma surpluses_vote:
  assumes wf: "wf_db d"
  shows "surpluses (d\<lparr>vote_coll := vote_coll d @
                [\<lparr>v_id = i, v_post_id = pid, v_device_id = dev,
                  v_created_at = t0, v_updated_at = t1\<rparr>],
              next_oid := n,
              post_coll := update_one (\<lambda>p. p_id p = pid)
                 (\<lambda>p. p\<lparr>votes_count := votes_count p + 1, p_updated_at := t2\<rparr>)
                 (post_coll d)\<rparr>) = surpluses d"
proof -
  from wf have dp: "distinct (map p_id (post_coll d))" by (simp add: wf_db_def)
  show ?thesis
    unfolding surpluses_def update_one_distinct [OF dp]
    by (simp add: votes_surplus_def comments_surplus_def)
qed

lemma surpluses_comment:
  assumes wf: "wf_db d"
  shows "surpluses (d\<lparr>comment_coll := comment_coll d @
               [\<lparr>c_id = i, c_post_id = pid, author = a, content = c, c_device_id = dv,
                 c_created_at = t0, c_updated_at = t1\<rparr>],
               next_oid := n,
               post_coll := update_one (\<lambda>p. p_id p = pid)
                 (\<lambda>p. p\<lparr>comments_count := comments_count p + 1, p_updated_at := t2\<rparr>)
                 (post_coll d)\<rparr>) = surpluses d"
proof -
  from wf have dp: "distinct (map p_id (post_coll d))" by (simp add: wf_db_def)
  show ?thesis
    unfolding surpluses_def update_one_distinct [OF dp]
    by (simp add: votes_surplus_def comments_surplus_def)
qed

lemma surpluses_post:
  assumes wf: "wf_db d"
  shows "surpluses (d\<lparr>post_coll := post_coll d @
               [\<lparr>p_id = next_oid d, title = a, tagline = b, maker = m, url = u,
                 votes_count = 0, comments_count = 0, p_created_at = t0, p_updated_at = t1\<rparr>],
               next_oid := n\<rparr>) = surpluses d @ [(next_oid d, 0, 0)]"
proof -
  from wf have "\<forall>v\<in>set (vote_coll d). v_post_id v \<in> p_id ` set (post_coll d)"
    and "\<forall>c\<in>set (comment_coll d). c_post_id c \<in> p_id ` set (post_coll d)"
    and "next_oid d \<notin> p_id ` set (post_coll d)"
    by (auto simp: wf_db_def list_all_iff)
  then have "\<forall>v\<in>set (vote_coll d). v_post_id v \<noteq> next_oid d"
    and "\<forall>c\<in>set (comment_coll d). c_post_id c \<noteq> next_oid d"
    by metis+
  then have "filter (\<lambda>v. v_post_id v = next_oid d) (vote_coll d) = []"
    and "filter (\<lambda>c. c_post_id c = next_oid d) (comment_coll d) = []"
    by (simp_all add: filter_empty_conv)
  then show ?thesis
    by (simp add: surpluses_def votes_surplus_def comments_surplus_def)
qed

lemma surpluses_unvote:
  assumes wf: "wf_db d" and e: "e \<in> set (vote_coll d)" and ep: "v_post_id e = pid"
  shows "surpluses (d\<lparr>vote_coll := delete_one (\<lambda>v. v_id v = v_id e) (vote_coll d),
              post_coll := update_one (\<lambda>p. p_id p = pid)
                 (\<lambda>p. p\<lparr>votes_count := votes_count p - 1, p_updated_at := t0\<rparr>)
                 (post_coll d)\<rparr>) = surpluses d"
proof -
  from wf have dp: "distinct (map p_id (post_coll d))"
    and dv: "distinct (map v_id (vote_coll d))"
    by (simp_all add: wf_db_def)
  let ?vs = "filter (\<lambda>x. v_id x \<noteq> v_id e) (vote_coll d)"
  let ?g = "\<lambda>x. if p_id x = pid then x\<lparr>votes_count := votes_count x - 1, p_updated_at := t0\<rparr>
                else x"
  have s: "votes_count (?g x) - int (length (filter (\<lambda>v. v_post_id v = p_id x) ?vs)) =
        votes_count x - int (length (filter (\<lambda>v. v_post_id v = p_id x) (vote_coll d)))"
    for x :: post
  proof -
    define n0 where "n0 = length (filter (\<lambda>v. v_post_id v = p_id x) (vote_coll d))"
    define n1 where "n1 = length (filter (\<lambda>v. v_post_id v = p_id x) ?vs)"
    have "length (filter (\<lambda>v. v_post_id v = p_id x) (vote_coll d)) =
        length (filter (\<lambda>v. v_post_id v = p_id x) ?vs) +
        (if v_post_id e = p_id x then 1 else 0)"
      by (rule length_filter_delete [OF dv e])
    then have len: "n0 = n1 + (if pid = p_id x then 1 else 0)"
      unfolding n0_def n1_def ep .
    have "votes_count (?g x) - int n1 = votes_count x - int n0"
      using len by (cases "p_id x = pid") auto
    then show ?thesis unfolding n0_def n1_def .
  qed
  have g: "p_id (?g x) = p_id x" "comments_count (?g x) = comments_count x" for x :: post
    by simp_all
  have "map (\<lambda>p. (p_id p,
          votes_count p - int (length (filter (\<lambda>v. v_post_id v = p_id p) ?vs)),
          comments_count p -
            int (length (filter (\<lambda>c. c_post_id c = p_id p) (comment_coll d)))))
        (map ?g (post_coll d)) =
      map (\<lambda>p. (p_id p,
          votes_count p - int (length (filter (\<lambda>v. v_post_id v = p_id p) (vote_coll d))),
          comments_count p -
            int (length (filter (\<lambda>c. c_post_id c = p_id p) (comment_coll d)))))
        (post_coll d)"
    unfolding map_map comp_def by (rule map_cong [OF refl]) (simp only: s g)
  moreover
  let ?d' = "d\<lparr>vote_coll := delete_one (\<lambda>v. v_id v = v_id e) (vote_coll d),
              post_coll := update_one (\<lambda>p. p_id p = pid)
                 (\<lambda>p. p\<lparr>votes_count := votes_count p - 1, p_updated_at := t0\<rparr>)
                 (post_coll d)\<rparr>"
  have "vote_coll ?d' = ?vs" and "post_coll ?d' = map ?g (post_coll d)"
    and "comment_coll ?d' = comment_coll d"
    by (simp_all add: update_one_distinct [OF dp] delete_one_distinct [OF dv])
  ultimately show ?thesis
    unfolding surpluses_def votes_surplus_def comments_surplus_def by (simp only:)
qed

lemma toggle_vote_surpluses:
  assumes wf: "wf_db d"
  shows "\<exists>d'. snd (toggle_vote ObjectId (Some d) post_id dev now) = Some d' \<and>
           wf_db d' \<and> surpluses d' = surpluses d"
proof (cases "ObjectId post_id")
  case None
  with wf show ?thesis by (simp add: toggle_vote_def oid_def)
next
  case (Some pid)
  show ?thesis
  proof (cases "find_one (\<lambda>p. p_id p = pid) (post_coll d)")
    case None
    with Some wf show ?thesis by (simp add: toggle_vote_def oid_def)
  next
    case p: (Some p)
    from find_one_Some [OF p] have m: "pid \<in> p_id ` set (post_coll d)" by auto
    show ?thesis
    proof (cases "find_one (\<lambda>v. v_post_id v = pid \<and> v_device_id v = dev) (vote_coll d)")
      case None
      show ?thesis
        unfolding toggle_vote_vote [of ObjectId, OF Some p None]
        using wf_db_vote [OF wf m] surpluses_vote [OF wf] by simp
    next
      case e: (Some e)
      from find_one_Some [OF e] have em: "e \<in> set (vote_coll d)" and q: "v_post_id e = pid"
        by auto
      show ?thesis
        unfolding toggle_vote_unvote [of ObjectId, OF Some p e]
        using wf_db_unvote [OF wf] surpluses_unvote [OF wf em q] by simp
    qed
  qed
qed

lemma add_comment_surpluses:
  assumes wf: "wf_db d"
  shows "\<exists>d'. snd (add_comment ObjectId (Some d) post_id payload now) = Some d' \<and>
           wf_db d' \<and> surpluses d' = surpluses d"
proof (cases "ObjectId post_id")
  case None
  with wf show ?thesis by (simp add: add_comment_def oid_def)
next
  case (Some pid)
  show ?thesis
  proof (cases "find_one (\<lambda>p. p_id p = pid) (post_coll d)")
    case None
    with Some wf show ?thesis by (simp add: add_comment_def oid_def)
  next
    case p: (Some p)
    from find_one_Some [OF p] have m: "pid \<in> p_id ` set (post_coll d)" by auto
    show ?thesis
      unfolding add_comment_Some [of ObjectId, OF Some p]
      using wf_db_comment [OF wf m] surpluses_comment [OF wf] by simp
  qed
qed

lemma create_post_surpluses:
  assumes wf: "wf_db d"
  shows "\<exists>d'. snd (create_post (Some d) data now) = Some d' \<and> wf_db d' \<and>
           surpluses d' = surpluses d @ [(next_oid d, 0, 0)]"
  unfolding create_post_Some
  using surpluses_post [OF wf] wf_db_post [OF wf, of
        "\<lparr>p_id = 0, title = strip (pc_title data), tagline = strip (pc_tagline data),
          maker = strip_or_None (pc_maker data), url = strip_or_None (pc_url data),
          votes_count = 0, comments_count = 0, p_created_at = now 0, p_updated_at = now 1\<rparr>"]
  by simp

lemma seed_posts_surpluses:
  "\<exists>d'. seed_posts (Some \<lparr>post_coll = [], vote_coll = [], comment_coll = [], next_oid = n\<rparr>) now
           = Some d' \<and> map snd (surpluses d') = [(27, 6), (40, 9), (12, 2), (33, 4)]"
  by (simp add: seed_posts_def samples_def insert_post_def insert_vote_def Let_def
      surpluses_def votes_surplus_def comments_surplus_def)

lemma reachable_surpluses:
  "reachable ObjectId db \<Longrightarrow>
   \<exists>d. db = Some d \<and>
     (counters_consistent d \<or>
      (\<exists>rest. map snd (surpluses d) = [(27, 6), (40, 9), (12, 2), (33, 4)] @ rest \<and>
         list_all (\<lambda>s. s = (0, 0)) rest))"
proof (induction rule: reachable.induct)
  case initial
  show ?case by (simp add: empty_db_def counters_consistent_def)
next
  case (startup db now)
  from reachable_invariant [OF startup.hyps] obtain d where d: "db = Some d" and wf: "wf_db d"
    by blast
  show ?case
  proof (cases "post_coll d = []")
    case True
    from wf_db_no_posts [OF wf True] seed_posts_surpluses [of "next_oid d" now]
    obtain d' where "seed_posts (Some d) now = Some d'"
      and "map snd (surpluses d') = [(27, 6), (40, 9), (12, 2), (33, 4)] @ []"
      by auto
    moreover have "list_all (\<lambda>s. s = (0, 0)) ([] :: (int \<times> int) list)" by simp
    ultimately show ?thesis using d by blast
  next
    case False
    then have "seed_posts (Some d) now = Some d" by (simp add: seed_posts_def)
    with startup.IH d show ?thesis by simp
  qed
next
  case (post_created db data now)
  from reachable_invariant [OF post_created.hyps] obtain d
    where d: "db = Some d" and wf: "wf_db d"
    by blast
  from create_post_surpluses [OF wf, of data now] obtain d'
    where r: "snd (create_post (Some d) data now) = Some d'"
      and s: "surpluses d' = surpluses d @ [(next_oid d, 0, 0)]"
    by blast
  from post_created.IH d have "counters_consistent d \<or>
      (\<exists>rest. map snd (surpluses d) = [(27, 6), (40, 9), (12, 2), (33, 4)] @ rest \<and>
         list_all (\<lambda>s. s = (0, 0)) rest)"
    by simp
  then have "counters_consistent d' \<or>
      (\<exists>rest. map snd (surpluses d') = [(27, 6), (40, 9), (12, 2), (33, 4)] @ rest \<and>
         list_all (\<lambda>s. s = (0, 0)) rest)"
  proof
    assume "counters_consistent d"
    then have "counters_consistent d'" by (simp add: counters_consistent_surpluses s)
    then show ?thesis ..
  next
    assume "\<exists>rest. map snd (surpluses d) = [(27, 6), (40, 9), (12, 2), (33, 4)] @ rest \<and>
         list_all (\<lambda>s. s = (0, 0)) rest"
    then obtain rest where "map snd (surpluses d) = [(27, 6), (40, 9), (12, 2), (33, 4)] @ rest"
      and "list_all (\<lambda>s. s = (0, 0)) rest"
      by blast
    then have "map snd (surpluses d') =
        [(27, 6), (40, 9), (12, 2), (33, 4)] @ (rest @ [(0, 0)])"
      and "list_all (\<lambda>s. s = (0, 0)) (rest @ [(0, 0)])"
      by (simp_all add: s)
    then show ?thesis by blast
  qed
  with d r show ?case by simp
next
  case (vote_toggled db post_id device_id now)
  from reachable_invariant [OF vote_toggled.hyps] obtain d
    where d: "db = Some d" and wf: "wf_db d"
    by blast
  from toggle_vote_surpluses [OF wf, of ObjectId post_id device_id now] obtain d'
    where r: "snd (toggle_vote ObjectId (Some d) post_id device_id now) = Some d'"
      and s: "surpluses d' = surpluses d"
    by blast
  from vote_toggled.IH d r s show ?case by (simp add: counters_consistent_surpluses)
next
  case (comment_added db post_id payload now)
  from reachable_invariant [OF comment_added.hyps] obtain d
    where d: "db = Some d" and wf: "wf_db d"
    by blast
  from add_comment_surpluses [OF wf, of ObjectId post_id payload now] obtain d'
    where r: "snd (add_comment ObjectId (Some d) post_id payload now) = Some d'"
      and s: "surpluses d' = surpluses d"
    by blast
  from comment_added.IH d r s show ?case by (simp add: counters_consistent_surpluses)
qed

lemma booted_run_reachable: "reachable hex_ObjectId booted_run"
  unfolding booted_run_def
  by (intro reachable.comment_added reachable.vote_toggled reachable.post_created
      reachable.startup reachable.initial)

lemma booted_run_surpluses:
  "map_option (map snd \<circ> surpluses) booted_run =
     Some [(27, 6), (40, 9), (12, 2), (33, 4), (0, 0)]"
  by (simp add: booted_run_def seed_posts_def samples_def empty_db_def insert_post_def
      insert_vote_def insert_comment_def create_post_def toggle_vote_def add_comment_def
      oid_def hex_ObjectId_def hexval_def str_def find_one_def strip_def isspace_def
      strip_or_None_def or_None_def clock0_def surpluses_def votes_surplus_def
      comments_surplus_def Let_def)

text \<open>
  C2 (as amended). In every store the program reaches from an empty database, seeding
  included, the counters of every post equal the numbers of its votes and of its
  comments, except for the four sample posts of the seed: either all posts have them
  equal (the startup found posts and seeded nothing), or the first four posts of the
  collection are the samples, whose \<^verbatim>\<open>votes_count\<close> exceeds the number of their votes by
  27, 40, 12 and 33 and whose \<^verbatim>\<open>comments_count\<close> exceeds the number of their comments by
  6, 9, 2 and 4, and every post after them has both equal. This is so because, on any
  store with unique ids whose votes and comments refer to existing posts, \<^verbatim>\<open>toggle_vote\<close>
  and \<^verbatim>\<open>add_comment\<close> leave the surplus of every post as it was, whether they succeed
  or fail, \<^verbatim>\<open>create_post\<close> adds a post with no surplus, and seeding a store that has
  posts changes nothing. The counters are consistent exactly when no post has a surplus.
\<close>

theorem counters_track_records:
  "(reachable ObjectId db \<longrightarrow>
      (\<exists>d1. db = Some d1 \<and>
         (counters_consistent d1 \<or>
          (\<exists>rest. map snd (surpluses d1) = [(27, 6), (40, 9), (12, 2), (33, 4)] @ rest \<and>
             list_all (\<lambda>s. s = (0, 0)) rest)))) \<and>
   (wf_db d \<longrightarrow>
      (\<exists>d'. snd (toggle_vote ObjectId (Some d) post_id device_id now) = Some d' \<and>
            wf_db d' \<and> surpluses d' = surpluses d) \<and>
      (\<exists>d'. snd (add_comment ObjectId (Some d) post_id payload now) = Some d' \<and>
            wf_db d' \<and> surpluses d' = surpluses d) \<and>
      (\<exists>d'. snd (create_post (Some d) data now) = Some d' \<and>
            wf_db d' \<and> surpluses d' = surpluses d @ [(next_oid d, 0, 0)]) \<and>
      (post_coll d \<noteq> [] \<longrightarrow> seed_posts (Some d) now = Some d)) \<and>
   counters_consistent d = list_all (\<lambda>s. snd s = (0, 0)) (surpluses d)"
proof -
  have s: "post_coll d \<noteq> [] \<longrightarrow> seed_posts (Some d) now = Some d"
    by (simp add: seed_posts_def)
  from reachable_surpluses [of ObjectId db]
    toggle_vote_surpluses [of d ObjectId post_id device_id now]
    add_comment_surpluses [of d ObjectId post_id payload now]
    create_post_surpluses [of d data now]
    counters_consistent_surpluses [of d] s
  show ?thesis by blast
qed

theorem counters_track_records_witness:
  "reachable hex_ObjectId booted_run \<and>
   (\<exists>d1. booted_run = Some d1 \<and> \<not> counters_consistent d1 \<and>
      map snd (surpluses d1) = [(27, 6), (40, 9), (12, 2), (33, 4)] @ [(0, 0)]) \<and>
   wf_db demo_db \<and> post_coll demo_db \<noteq> [] \<and> counters_consistent demo_db \<and>
   (\<exists>d'. snd (toggle_vote hex_ObjectId (Some demo_db) (str ''000000000000000000000000'')
             (str ''demo-device'') clock0) = Some d' \<and>
          wf_db d' \<and> surpluses d' = surpluses demo_db \<and> counters_consistent d') \<and>
   (\<exists>d'. snd (add_comment hex_ObjectId (Some demo_db) (str ''000000000000000000000000'')
             \<lparr>cc_content = str ''Hello'', cc_author = None, cc_device_id = None\<rparr> clock0) =
             Some d' \<and>
          wf_db d' \<and> surpluses d' = surpluses demo_db \<and> counters_consistent d') \<and>
   (\<exists>d'. snd (create_post (Some demo_db)
             \<lparr>pc_title = str ''New'', pc_tagline = str ''Line'', pc_maker = None,
              pc_url = None\<rparr> clock0) = Some d' \<and>
          wf_db d' \<and> surpluses d' = surpluses demo_db @ [(4, 0, 0)] \<and>
          counters_consistent d') \<and>
   seed_posts (Some demo_db) clock0 = Some demo_db"
proof -
  have r: "reachable hex_ObjectId booted_run" by (rule booted_run_reachable)
  have w: "wf_db demo_db" by (rule wf_demo_db)
  have n: "post_coll demo_db \<noteq> []" by (simp add: demo_db_def)
  have o: "next_oid demo_db = 4" by (simp add: demo_db_def)
  have c: "counters_consistent demo_db" by (simp add: counters_consistent_def demo_db_def)
  note t = counters_track_records [of hex_ObjectId booted_run demo_db
      "str ''000000000000000000000000''" "str ''demo-device''" clock0
      "\<lparr>cc_content = str ''Hello'', cc_author = None, cc_device_id = None\<rparr>"
      "\<lparr>pc_title = str ''New'', pc_tagline = str ''Line'', pc_maker = None, pc_url = None\<rparr>"]
  from t r obtain d1 where d1: "booted_run = Some d1" by blast
  have "map_option (map snd \<circ> surpluses) (Some d1) =
      Some [(27, 6), (40, 9), (12, 2), (33, 4), (0, 0)]"
    using booted_run_surpluses unfolding d1 .
  then have m: "map snd (surpluses d1) = [(27, 6), (40, 9), (12, 2), (33, 4)] @ [(0, 0)]"
    by simp
  have e: "counters_consistent d1 = list_all (\<lambda>s. snd s = (0, 0)) (surpluses d1)"
    using counters_track_records [of hex_ObjectId booted_run d1] by blast
  have "list_all (\<lambda>s. snd s = (0, 0)) (surpluses d1) =
      list_all (\<lambda>s. s = (0, 0)) (map snd (surpluses d1))"
    by (simp add: list_all_iff)
  with e m have nc: "\<not> counters_consistent d1" by simp
  from t w c have
    "\<exists>d'. snd (toggle_vote hex_ObjectId (Some demo_db) (str ''000000000000000000000000'')
             (str ''demo-device'') clock0) = Some d' \<and>
          wf_db d' \<and> surpluses d' = surpluses demo_db"
    "\<exists>d'. snd (add_comment hex_ObjectId (Some demo_db) (str ''000000000000000000000000'')
             \<lparr>cc_content = str ''Hello'', cc_author = None, cc_device_id = None\<rparr> clock0) =
             Some d' \<and>
          wf_db d' \<and> surpluses d' = surpluses demo_db"
    "\<exists>d'. snd (create_post (Some demo_db)
             \<lparr>pc_title = str ''New'', pc_tagline = str ''Line'', pc_maker = None,
              pc_url = None\<rparr> clock0) = Some d' \<and>
          wf_db d' \<and> surpluses d' = surpluses demo_db @ [(4, 0, 0)]"
    "seed_posts (Some demo_db) clock0 = Some demo_db"
    using n o by auto
  moreover from c have z: "list_all (\<lambda>s. snd s = (0, 0)) (surpluses demo_db)"
    by (simp add: counters_consistent_surpluses)
  ultimately show ?thesis
    using r d1 m nc w n c by (auto simp: counters_consistent_surpluses)
qed

text \<open>
  The claim as it stands, with seeding among the operations, fails on the seeded store:
  the four sample posts carry the counters 28, 41, 12, 33 and 6, 9, 2, 4, while the seed
  inserts two votes (for the first two posts) and no comment.
\<close>

theorem seeded_counters_differ:
  "reachable hex_ObjectId (seed_posts (Some empty_db) clock0) \<and>
   map_option counters_consistent (seed_posts (Some empty_db) clock0) = Some False \<and>
   map_option (map votes_count \<circ> post_coll) (seed_posts (Some empty_db) clock0) =
     Some [28, 41, 12, 33] \<and>
   map_option (map comments_count \<circ> post_coll) (seed_posts (Some empty_db) clock0) =
     Some [6, 9, 2, 4] \<and>
   map_option (map v_post_id \<circ> vote_coll) (seed_posts (Some empty_db) clock0) = Some [0, 1] \<and>
   map_option comment_coll (seed_posts (Some empty_db) clock0) = Some []"
proof -
  have "reachable hex_ObjectId (seed_posts (Some empty_db) clock0)" by (rule seeded_reachable)
  then show ?thesis
    by (simp add: seed_posts_def samples_def empty_db_def insert_post_def insert_vote_def
        counters_consistent_def Let_def)
qed

end
